theory Spec2Isabelle
  imports Main "HOL-Library.Word" "HOL-Library.Multiset"
begin

unbundle bit_operations_syntax

section \<open>Shared data model\<close>

text \<open>
  Byte buffers are lists of 8-bit words. A Go \<open>error\<close> value is a message, the sentinel
  \<open>context.Canceled\<close>, or an error wrapped with a message; a \<open>nil\<close> error
  is \<open>None\<close> of \<open>error option\<close>, and a function returning \<open>(T, error)\<close> returns
  \<open>error + T\<close> (\<open>Inl\<close> the error).
\<close>

type_synonym byte = "8 word"

datatype error = Error string | ContextCanceled | Wrap string error

text \<open>\<open>errors.Is(err, context.Canceled)\<close> looks through the wrapping of \<open>fmt.Errorf\<close> with
  \<open>%w\<close>; \<open>errString\<close> is the text \<open>%v\<close> prints.\<close>

fun isCanceled :: "error \<Rightarrow> bool" where
  "isCanceled ContextCanceled = True"
| "isCanceled (Error msg) = False"
| "isCanceled (Wrap msg err) = isCanceled err"

fun errString :: "error \<Rightarrow> string" where
  "errString (Error msg) = msg"
| "errString ContextCanceled = ''context canceled''"
| "errString (Wrap msg err) = msg @ '': '' @ errString err"

text \<open>
  \<open>time.Time\<close>: the instant (nanoseconds since the zero instant, January 1 of year 1, UTC)
  and the location pointer, which Go's \<open>==\<close> on the struct compares as well. \<open>time.Time{}\<close> is
  the zero instant with a nil location. Times read from recorded documents carry no
  monotonic clock reading, so \<open>After\<close> and \<open>Before\<close> compare the instants.
\<close>

record Time =
  instant :: int
  loc :: "string option"

definition zeroTime :: Time where
  "zeroTime = \<lparr>instant = 0, loc = None\<rparr>"

definition After :: "Time \<Rightarrow> Time \<Rightarrow> bool" where
  "After t u = (instant u < instant t)"

definition Before :: "Time \<Rightarrow> Time \<Rightarrow> bool" where
  "Before t u = (instant t < instant u)"

text \<open>\<open>t.Unix()\<close>: the whole seconds since January 1, 1970 UTC.\<close>

definition Unix :: "Time \<Rightarrow> int" where
  "Unix t = instant t div 1000000000 - 62135596800"

text \<open>What the code writes to its \<open>zap\<close> logger, kept as a list of entries.\<close>

datatype LogEntry =
    Warn string "string list"
  | Info string "string list"
  | LogError "error option" string

datatype Kind = HTTP | Mongo | OtherKind string

text \<open>Modelled from the spec: the declarations of package \<open>models\<close> are not among the
  sources. \<open>models.HttpReq\<close>, \<open>models.HttpResp\<close>, \<open>models.TestCase\<close> and \<open>models.Mock\<close> are
  records of the fields the code reads or writes. The response's fields carry the prefix
  \<open>Resp\<close>, the mock's the prefix \<open>Mock\<close>, since record fields share one name space.\<close>

record HttpReq =
  Method :: string
  ProtoMajor :: int
  ProtoMinor :: int
  URL :: string
  URLParams :: "(string \<times> string) list"
  Header :: "(string \<times> string) list"
  Body :: string
  Timestamp :: Time

record HttpResp =
  StatusCode :: int
  RespHeader :: "(string \<times> string) list"
  RespBody :: string
  RespTimestamp :: Time

record TestCase =
  Version :: string
  Name :: string
  TcKind :: Kind
  Created :: int
  HttpReq :: HttpReq
  HttpResp :: HttpResp
  Noise :: "(string \<times> string list) list"

text \<open>The Mongo wire messages a mock stores: \<open>models.MongoRequest\<close> has a pointer to its
  header and a message of interface type, whose dynamic type is \<open>*models.MongoOpQuery\<close>,
  \<open>*models.MongoOpMessage\<close> or something else.\<close>

record MongoHeader =
  Opcode :: int

datatype MongoMessage =
    MongoOpQuery (Query: string)
  | MongoOpMessage (Sections: "string list")
  | OtherMessage

record MongoRequest =
  MHeader :: "MongoHeader option"
  Message :: MongoMessage

record MockSpec =
  Metadata :: "string \<rightharpoonup> string"
  MongoRequests :: "MongoRequest list"
  MongoResponses :: "string list"
  SpecCreated :: int
  ReqTimestampMock :: Time
  ResTimestampMock :: Time

record Mock =
  MockVersion :: string
  MockKind :: Kind
  MockName :: string
  Spec :: MockSpec

section \<open>Mock windowing: \<open>FilterTcsMocks\<close>\<close>

text \<open>
  The loop of \<open>FilterTcsMocks\<close> over the mocks, with its three accumulators and the
  warnings it logs. A mock without a request or a response timestamp is kept, one with
  both is kept when its request is after the test's request and its response before the
  test's response.
\<close>

record filterState =
  filteredMocks :: "Mock list"
  entMocks :: "string list"
  nonKeployMocks :: "string list"
  warnings :: "LogEntry list"

fun filterLoop :: "TestCase \<Rightarrow> Mock list \<Rightarrow> filterState \<Rightarrow> filterState" where
  "filterLoop tc [] s = s"
| "filterLoop tc (mock # ms) s =
     (let s1 = (if MockVersion mock = ''api.keploy-enterprise.io/v1beta1''
                then s\<lparr>entMocks := entMocks s @ [MockName mock]\<rparr>
                else if MockVersion mock \<noteq> ''api.keploy.io/v1beta1''
                then s\<lparr>nonKeployMocks := nonKeployMocks s @ [MockName mock]\<rparr>
                else s)
      in if ReqTimestampMock (Spec mock) = zeroTime \<or> ResTimestampMock (Spec mock) = zeroTime
         then filterLoop tc ms
                (s1\<lparr>warnings := warnings s1 @
                        [Warn (''request or response timestamp of mock is missing for '' @ Name tc) []],
                     filteredMocks := filteredMocks s1 @ [mock]\<rparr>)
         else if After (ReqTimestampMock (Spec mock)) (Timestamp (HttpReq tc))
                 \<and> Before (ResTimestampMock (Spec mock)) (RespTimestamp (HttpResp tc))
         then filterLoop tc ms (s1\<lparr>filteredMocks := filteredMocks s1 @ [mock]\<rparr>)
         else filterLoop tc ms s1)"

definition FilterTcsMocks :: "TestCase \<Rightarrow> Mock list \<Rightarrow> Mock list \<times> LogEntry list" where
  "FilterTcsMocks tc m =
     (if Timestamp (HttpReq tc) = zeroTime
      then (m, [Warn (''request timestamp is missing for '' @ Name tc) []])
      else if RespTimestamp (HttpResp tc) = zeroTime
      then (m, [Warn (''response timestamp is missing for '' @ Name tc) []])
      else
        let s = filterLoop tc m
                  \<lparr>filteredMocks = [], entMocks = [], nonKeployMocks = [], warnings = []\<rparr>;
            w1 = (if 0 < length (entMocks s)
                  then [Warn ''These mocks have been recorded with Keploy Enterprise, may not work properly with the open-source version''
                          (entMocks s)]
                  else []);
            w2 = (if 0 < length (nonKeployMocks s)
                  then [Warn ''These mocks have not been recorded by Keploy, may not work properly with Keploy.''
                          (nonKeployMocks s)]
                  else [])
        in (filteredMocks s, warnings s @ w1 @ w2))"

text \<open>A mock is in the window of a test case when it lacks a timestamp or lies strictly
  inside the interval from the test's request to the test's response.\<close>

definition inWindow :: "TestCase \<Rightarrow> Mock \<Rightarrow> bool" where
  "inWindow tc mock =
     (ReqTimestampMock (Spec mock) = zeroTime \<or> ResTimestampMock (Spec mock) = zeroTime \<or>
      (instant (Timestamp (HttpReq tc)) < instant (ReqTimestampMock (Spec mock)) \<and>
       instant (ResTimestampMock (Spec mock)) < instant (RespTimestamp (HttpResp tc))))"

section \<open>Stopping the process: \<open>Stop\<close>\<close>

text \<open>
  The package-level variable \<open>cancel\<close> (nil until \<open>SetCancel\<close> stores a function), the
  invocations of cancel functions so far, and the log. A cancel function is named by the
  number of the context it cancels.
\<close>

type_synonym CancelFunc = nat

record ctxPkg =
  cancel :: "CancelFunc option"
  invoked :: "CancelFunc list"
  logged :: "LogEntry list"

definition SetCancel :: "CancelFunc option \<Rightarrow> ctxPkg \<Rightarrow> ctxPkg" where
  "SetCancel c g = g\<lparr>cancel := c\<rparr>"

text \<open>\<open>Stop(logger, reason)\<close>; the logger is a pointer, \<open>None\<close> when nil.\<close>

definition Stop :: "'logger option \<Rightarrow> string \<Rightarrow> ctxPkg \<Rightarrow> error option \<times> ctxPkg" where
  "Stop logger reason g =
     (case logger of
        None \<Rightarrow> (Some (Error ''logger is not set''), g)
      | Some l \<Rightarrow>
          (case cancel g of
             None \<Rightarrow>
               (Some (Error ''cancel function is not set''),
                g\<lparr>logged := logged g @
                      [LogError (Some (Error ''cancel function is not set'')) ''failed stopping keploy'']\<rparr>)
           | Some c \<Rightarrow>
               if reason = ''''
               then (Some (Error ''cannot stop keploy without a reason''),
                     g\<lparr>logged := logged g @
                           [LogError (Some (Error ''cannot stop keploy without a reason''))
                              ''failed stopping keploy'']\<rparr>)
               else (None,
                     g\<lparr>logged := logged g @ [Info ''stopping Keploy'' [''reason'', reason]],
                       invoked := invoked g @ [c]\<rparr>)))"

section \<open>Protocol detection: \<open>Mongo.MatchType\<close>\<close>

text \<open>
  \<open>binary.LittleEndian.Uint32\<close> reads four bytes, least significant first, and panics
  (here \<open>None\<close>) on a shorter slice. \<open>MatchType\<close> converts the length prefix with \<open>int(...)\<close>,
  a 64-bit signed integer, and compares it with \<open>len(buffer)\<close>.
\<close>

fun Uint32 :: "byte list \<Rightarrow> 32 word option" where
  "Uint32 (b0 # b1 # b2 # b3 # _) =
     Some (ucast b0 OR push_bit 8 (ucast b1) OR push_bit 16 (ucast b2) OR push_bit 24 (ucast b3))"
| "Uint32 _ = None"

definition int_of_uint32 :: "32 word \<Rightarrow> int" where
  "int_of_uint32 w = sint (ucast w :: 64 word)"

definition MatchType :: "byte list \<Rightarrow> bool option" where
  "MatchType buffer =
     (if length buffer < 4 then Some False
      else case Uint32 (take 4 buffer) of
             None \<Rightarrow> None
           | Some messageLength \<Rightarrow> Some (int_of_uint32 messageLength = int (length buffer)))"

text \<open>The unsigned little-endian integer encoded in the first four bytes of a buffer.\<close>

definition le32 :: "byte list \<Rightarrow> nat" where
  "le32 b = unat (b ! 0) + 256 * unat (b ! 1) + 65536 * unat (b ! 2) + 16777216 * unat (b ! 3)"

section \<open>Recording Mongo heartbeats: \<open>recordMessage\<close>\<close>

text \<open>
  A run-time panic (index out of range, nil dereference, failed type assertion) ends the
  function; in the model it is a value. \<open>OpQuery\<close> and \<open>OpMsg\<close> are the opcodes of
  \<open>wiremessage\<close>.
\<close>

datatype panic = Panic string

definition OpQuery :: int where "OpQuery = 2004"
definition OpMsg :: int where "OpMsg = 2013"

text \<open>Modelled from the spec: \<open>models.GetVersion\<close> is not among the sources; the spec gives
  the version of recorded documents as \<open>api.keploy.io/v1beta1\<close>.\<close>

definition GetVersion :: string where
  "GetVersion = ''api.keploy.io/v1beta1''"

text \<open>
  The package variable \<open>configRequests\<close> (initially the one empty string), the local
  \<open>shouldRecordCalls\<close>, and a pending panic. \<open>reqStep\<close> is the \<open>switch\<close> on the opcode for one
  value \<open>v\<close> and one request: its \<open>break\<close> leaves the \<open>switch\<close> only, so it skips the
  \<open>append\<close> and both loops go on. The outer \<open>range\<close> runs over the slice as it was when
  the loop began; the appends go to the variable.
\<close>

record recState =
  configRequests :: "string list"
  shouldRecordCalls :: bool
  panicked :: "panic option"

definition reqStep :: "string \<Rightarrow> string \<Rightarrow> MongoRequest \<Rightarrow> recState \<Rightarrow> recState" where
  "reqStep v opString req s =
     (case MHeader req of
        None \<Rightarrow> s\<lparr>panicked := Some (Panic ''nil pointer dereference'')\<rparr>
      | Some h \<Rightarrow>
          if Opcode h = OpQuery then
            (case Message req of
               MongoOpQuery q \<Rightarrow>
                 if q = v then s\<lparr>shouldRecordCalls := False\<rparr>
                 else s\<lparr>configRequests := configRequests s @ [q]\<rparr>
             | _ \<Rightarrow> s\<lparr>panicked := Some (Panic ''interface conversion'')\<rparr>)
          else if Opcode h = OpMsg then
            (case Message req of
               MongoOpMessage secs \<Rightarrow>
                 (case secs of
                    [] \<Rightarrow> s\<lparr>panicked := Some (Panic ''index out of range'')\<rparr>
                  | sec # _ \<Rightarrow>
                      if sec = v then s\<lparr>shouldRecordCalls := False\<rparr>
                      else s\<lparr>configRequests := configRequests s @ [sec]\<rparr>)
             | _ \<Rightarrow> s\<lparr>panicked := Some (Panic ''interface conversion'')\<rparr>)
          else if opString = v then s\<lparr>shouldRecordCalls := False\<rparr>
          else s\<lparr>configRequests := configRequests s @ [opString]\<rparr>)"

fun reqLoop :: "string \<Rightarrow> string \<Rightarrow> MongoRequest list \<Rightarrow> recState \<Rightarrow> recState" where
  "reqLoop v opString [] s = s"
| "reqLoop v opString (req # reqs) s =
     (let s' = reqStep v opString req s
      in if panicked s' \<noteq> None then s' else reqLoop v opString reqs s')"

fun configLoop :: "string list \<Rightarrow> string \<Rightarrow> MongoRequest list \<Rightarrow> recState \<Rightarrow> recState" where
  "configLoop [] opString reqs s = s"
| "configLoop (v # vs) opString reqs s =
     (let s' = reqLoop v opString reqs s
      in if panicked s' \<noteq> None then s' else configLoop vs opString reqs s')"

text \<open>
  \<open>recordMessage\<close>: \<open>String\<close> is \<open>opReq.String()\<close> and \<open>isHeartBeat\<close> the package's predicate
  (neither is among the sources; both are parameters), \<open>nowUnix\<close> and \<open>now\<close> the clock
  readings. The channel \<open>mocks\<close> is the list of mocks sent so far; a send appends.
\<close>

record recResult =
  panicOf :: "panic option"
  configAfter :: "string list"
  mocksChan :: "Mock list"

definition recordMessage ::
  "('op \<Rightarrow> string) \<Rightarrow> ('op \<Rightarrow> MongoHeader \<Rightarrow> MongoMessage \<Rightarrow> bool) \<Rightarrow> int \<Rightarrow> Time \<Rightarrow>
   MongoRequest list \<Rightarrow> string list \<Rightarrow> 'op \<Rightarrow> Time \<Rightarrow> string list \<Rightarrow> Mock list \<Rightarrow> recResult" where
  "recordMessage String isHeartBeat nowUnix now mongoRequests mongoResponses opReq reqTimestampMock
       cfg mocks =
     (let meta1 = [''operation'' \<mapsto> String opReq]
      in case mongoRequests of
           [] \<Rightarrow> \<lparr>panicOf = Some (Panic ''index out of range''), configAfter = cfg, mocksChan = mocks\<rparr>
         | r0 # _ \<Rightarrow>
             (case MHeader r0 of
                None \<Rightarrow> \<lparr>panicOf = Some (Panic ''nil pointer dereference''), configAfter = cfg,
                          mocksChan = mocks\<rparr>
              | Some h0 \<Rightarrow>
                  let hb = isHeartBeat opReq h0 (Message r0);
                      meta2 = (if hb then meta1(''type'' \<mapsto> ''config'') else meta1);
                      s = (if hb
                           then configLoop cfg (String opReq) mongoRequests
                                  \<lparr>configRequests = cfg, shouldRecordCalls = True, panicked = None\<rparr>
                           else \<lparr>configRequests = cfg, shouldRecordCalls = True, panicked = None\<rparr>)
                  in if panicked s \<noteq> None
                     then \<lparr>panicOf = panicked s, configAfter = configRequests s, mocksChan = mocks\<rparr>
                     else if shouldRecordCalls s
                     then \<lparr>panicOf = None, configAfter = configRequests s,
                           mocksChan = mocks @
                             [\<lparr>MockVersion = GetVersion, MockKind = Mongo, MockName = ''mocks'',
                               Spec = \<lparr>Metadata = meta2, MongoRequests = mongoRequests,
                                        MongoResponses = mongoResponses, SpecCreated = nowUnix,
                                        ReqTimestampMock = reqTimestampMock,
                                        ResTimestampMock = now\<rparr>\<rparr>]\<rparr>
                     else \<lparr>panicOf = None, configAfter = configRequests s, mocksChan = mocks\<rparr>))"

text \<open>The string of a request that the loops compare with \<open>v\<close> and append: the query of
  an \<open>OP_QUERY\<close>, the first section of an \<open>OP_MSG\<close>, and the operation's text otherwise.\<close>

definition payload :: "string \<Rightarrow> MongoRequest \<Rightarrow> string option" where
  "payload opString req =
     (case MHeader req of
        None \<Rightarrow> None
      | Some h \<Rightarrow>
          if Opcode h = OpQuery then
            (case Message req of MongoOpQuery q \<Rightarrow> Some q | _ \<Rightarrow> None)
          else if Opcode h = OpMsg then
            (case Message req of MongoOpMessage (sec # _) \<Rightarrow> Some sec | _ \<Rightarrow> None)
          else Some opString)"

text \<open>A heartbeat request, the predicate that recognises it, and two clock readings.\<close>

definition helloRequest :: MongoRequest where
  "helloRequest = \<lparr>MHeader = Some \<lparr>Opcode = 2004\<rparr>, Message = MongoOpQuery ''hello:true''\<rparr>"

definition helloHeartBeat :: "string \<Rightarrow> MongoHeader \<Rightarrow> MongoMessage \<Rightarrow> bool" where
  "helloHeartBeat opReq h m = (m = MongoOpQuery ''hello:true'')"

definition time100 :: Time where
  "time100 = \<lparr>instant = 100, loc = None\<rparr>"

definition time200 :: Time where
  "time200 = \<lparr>instant = 200, loc = None\<rparr>"

section \<open>Ordering of test-set names in \<open>printSummary\<close>\<close>

text \<open>
  The library functions the comparator calls: \<open>strings.Split\<close> on a one-byte separator,
  \<open>strconv.Atoi\<close> (an optional sign, then at least one decimal digit, the value within the
  64-bit range), and the order of strings, which compares byte by byte.
\<close>

fun Split :: "string \<Rightarrow> char \<Rightarrow> string list" where
  "Split [] sep = [[]]"
| "Split (c # cs) sep =
     (if c = sep then [] # Split cs sep
      else case Split cs sep of
             [] \<Rightarrow> [[c]]
           | p # ps \<Rightarrow> (c # p) # ps)"

definition digitVal :: "char \<Rightarrow> int option" where
  "digitVal c =
     (if of_char (CHR ''0'') \<le> (of_char c :: int) \<and> (of_char c :: int) \<le> of_char (CHR ''9'')
      then Some (of_char c - of_char (CHR ''0''))
      else None)"

fun parseDigits :: "string \<Rightarrow> int \<Rightarrow> int option" where
  "parseDigits [] n = Some n"
| "parseDigits (c # cs) n =
     (case digitVal c of
        None \<Rightarrow> None
      | Some d \<Rightarrow> parseDigits cs (n * 10 + d))"

definition Atoi :: "string \<Rightarrow> int option" where
  "Atoi s =
     (case s of
        [] \<Rightarrow> None
      | c # cs \<Rightarrow>
          let neg = (c = CHR ''-'');
              ds = (if c = CHR ''-'' \<or> c = CHR ''+'' then cs else s)
          in if ds = [] then None
             else case parseDigits ds 0 of
                    None \<Rightarrow> None
                  | Some n \<Rightarrow>
                      let v = (if neg then - n else n)
                      in if v < - 9223372036854775808 \<or> 9223372036854775807 < v then None
                         else Some v)"

fun strLess :: "string \<Rightarrow> string \<Rightarrow> bool" where
  "strLess [] [] = False"
| "strLess [] (b # bs) = True"
| "strLess (a # as) [] = False"
| "strLess (a # as) (b # bs) =
     (if (of_char a :: nat) < of_char b then True
      else if (of_char b :: nat) < of_char a then False
      else strLess as bs)"

text \<open>The function \<open>printSummary\<close> hands to \<open>sort.SliceStable\<close>, on the two names.\<close>

definition suiteLess :: "string \<Rightarrow> string \<Rightarrow> bool" where
  "suiteLess nameI nameJ =
     (let testSuitePartsI = Split nameI (CHR ''-'');
          testSuitePartsJ = Split nameJ (CHR ''-'')
      in if length testSuitePartsI < 3 \<or> length testSuitePartsJ < 3
         then strLess nameI nameJ
         else case (Atoi (testSuitePartsI ! 2), Atoi (testSuitePartsJ ! 2)) of
                (Some testSuiteIDNumberI, Some testSuiteIDNumberJ) \<Rightarrow>
                   testSuiteIDNumberI < testSuiteIDNumberJ
              | _ \<Rightarrow> False)"

text \<open>
  \<open>sort.SliceStable\<close> sorts a slice of at most 20 elements by one insertion sort: each
  element moves left while it is less than its left neighbour. \<open>insertLeft\<close> takes the sorted
  prefix in reverse, the left neighbour first. (Longer slices are sorted in blocks of 20
  that are then merged; the model covers the insertion sort.)
\<close>

fun insertLeft :: "('a \<Rightarrow> 'a \<Rightarrow> bool) \<Rightarrow> 'a \<Rightarrow> 'a list \<Rightarrow> 'a list" where
  "insertLeft lessFn x [] = [x]"
| "insertLeft lessFn x (p # ps) = (if lessFn x p then p # insertLeft lessFn x ps else x # p # ps)"

definition SliceStable :: "('a \<Rightarrow> 'a \<Rightarrow> bool) \<Rightarrow> 'a list \<Rightarrow> 'a list" where
  "SliceStable lessFn xs = rev (foldl (\<lambda>acc x. insertLeft lessFn x acc) [] xs)"

text \<open>
  The package variables of the replayer. \<open>printSummary\<close> prints only when \<open>totalTests\<close> is
  positive; the result is the order of the rows it prints, for the keys of
  \<open>completeTestReport\<close> in the order the map iteration gave them.
\<close>

record TestReportVerdict =
  total :: int
  passed :: int
  failed :: int

record replayGlobals =
  completeTestReport :: "string \<rightharpoonup> TestReportVerdict"
  totalTests :: int
  totalTestPassed :: int
  totalTestFailed :: int

definition printSummary :: "replayGlobals \<Rightarrow> string list \<Rightarrow> string list option" where
  "printSummary g testSuiteNames =
     (if 0 < totalTests g then Some (SliceStable suiteLess testSuiteNames) else None)"

text \<open>The package variables after a run of three test sets with one passing test each.\<close>

definition threeSets :: replayGlobals where
  "threeSets =
     \<lparr>completeTestReport =
        [''test-set-1'' \<mapsto> \<lparr>total = 1, passed = 1, failed = 0\<rparr>,
         ''test-set-2'' \<mapsto> \<lparr>total = 1, passed = 1, failed = 0\<rparr>,
         ''test-set-10'' \<mapsto> \<lparr>total = 1, passed = 1, failed = 0\<rparr>],
      totalTests = 3, totalTestPassed = 3, totalTestFailed = 0\<rparr>"


text \<open>The number a name is sorted by: its third dash-separated part, read by \<open>Atoi\<close>.\<close>

definition suiteNumber :: "string \<Rightarrow> int option" where
  "suiteNumber name =
     (let parts = Split name (CHR ''-'')
      in if length parts < 3 then None else Atoi (parts ! 2))"

section \<open>The capture factory: \<open>ProcessActiveTrackers\<close> and \<open>capture\<close>\<close>

text \<open>
  What \<open>capture\<close> reads of a parsed \<open>http.Request\<close> and \<open>http.Response\<close>: the headers as
  \<open>pkg.ToYamlHttpHeader\<close> gives them, the parameters as \<open>pkg.UrlParams\<close> gives them, and
  the outcome of \<open>io.ReadAll\<close> on the body.
\<close>

record Request =
  ReqMethod :: string
  ReqProtoMajor :: int
  ReqProtoMinor :: int
  Host :: string
  RequestURI :: string
  ReqYamlHeader :: "(string \<times> string) list"
  ReqUrlParams :: "(string \<times> string) list"
  ReqReadAll :: "error + string"

record Response =
  ResStatusCode :: int
  ResYamlHeader :: "(string \<times> string) list"
  ResReadAll :: "error + string"

text \<open>The test case \<open>capture\<close> builds; a missing \<open>Keploy-Test-Name\<close> header reads as the
  empty string.\<close>

definition newTestCase :: "int \<Rightarrow> Request \<Rightarrow> Response \<Rightarrow> string \<Rightarrow> string \<Rightarrow> Time \<Rightarrow> Time \<Rightarrow> TestCase" where
  "newTestCase nowUnix req resp reqBody respBody reqTimeTest resTimeTest =
     \<lparr>Version = GetVersion,
      Name = (case map_of (ReqYamlHeader req) ''Keploy-Test-Name'' of None \<Rightarrow> '''' | Some n \<Rightarrow> n),
      TcKind = HTTP,
      Created = nowUnix,
      HttpReq = \<lparr>Method = ReqMethod req, ProtoMajor = ReqProtoMajor req,
                 ProtoMinor = ReqProtoMinor req,
                 URL = ''http://'' @ Host req @ RequestURI req,
                 URLParams = ReqUrlParams req, Header = ReqYamlHeader req,
                 Body = reqBody, Timestamp = reqTimeTest\<rparr>,
      HttpResp = \<lparr>StatusCode = ResStatusCode resp, RespHeader = ResYamlHeader resp,
                  RespBody = respBody, RespTimestamp = resTimeTest\<rparr>,
      Noise = []\<rparr>"

text \<open>\<open>capture\<close>: the channel is the list of test cases sent so far.\<close>

definition capture ::
  "int \<Rightarrow> Request \<Rightarrow> Response \<Rightarrow> Time \<Rightarrow> Time \<Rightarrow> TestCase list \<times> LogEntry list \<Rightarrow>
   TestCase list \<times> LogEntry list" where
  "capture nowUnix req resp reqTimeTest resTimeTest out =
     (case ReqReadAll req of
        Inl err \<Rightarrow> (fst out, snd out @ [LogError (Some err) ''failed to read the http request body''])
      | Inr reqBody \<Rightarrow>
          (case ResReadAll resp of
             Inl err \<Rightarrow>
               (fst out, snd out @ [LogError (Some err) ''failed to read the http response body''])
           | Inr respBody \<Rightarrow>
               (fst out @ [newTestCase nowUnix req resp reqBody respBody reqTimeTest resTimeTest],
                snd out)))"

text \<open>
  The tracker and the HTTP parsers are not among the sources; they are parameters.
  \<open>IsComplete\<close> returns its five results and the tracker as it leaves it, \<open>IsInactive\<close>
  has the threshold and the clock folded in.
\<close>

record 'tr trackerOps =
  IsComplete :: "'tr \<Rightarrow> (bool \<times> byte list \<times> byte list \<times> Time \<times> Time) \<times> 'tr"
  IsInactive :: "'tr \<Rightarrow> bool"
  ParseHTTPRequest :: "byte list \<Rightarrow> error + Request"
  ParseHTTPResponse :: "byte list \<Rightarrow> Request \<Rightarrow> error + Response"
  clockUnix :: int

text \<open>
  The state of one pass: the connection IDs marked for deletion, the channel and the log,
  the registry entries visited so far (each with its tracker as \<open>IsComplete\<close> left it), and
  whether the pass returned on a cancelled context.
\<close>

record ('id, 'tr) sweep =
  trackersToDelete :: "'id list"
  outChan :: "TestCase list"
  sweepLog :: "LogEntry list"
  visited :: "('id \<times> 'tr) list"
  returned :: bool

text \<open>
  The loop over \<open>factory.connections\<close>. The registry is a list of pairs with distinct
  connection IDs, in the order the map iteration takes; \<open>ctxDone i\<close> says whether the
  context is cancelled when iteration \<open>i\<close> polls it. \<open>visit\<close> is the \<open>default\<close> branch of
  the \<open>select\<close>: what the pass does with one tracker.
\<close>

definition visit :: "'tr trackerOps \<Rightarrow> 'id \<Rightarrow> 'tr \<Rightarrow> ('id, 'tr) sweep \<Rightarrow> ('id, 'tr) sweep" where
  "visit ops connID tracker s =
     (case IsComplete ops tracker of
        ((ok, requestBuf, responseBuf, reqTimestampTest, resTimestampTest), tracker') \<Rightarrow>
          let s1 = s\<lparr>visited := visited s @ [(connID, tracker')]\<rparr>
          in if ok then
               if length requestBuf = 0 \<or> length responseBuf = 0
               then s1\<lparr>sweepLog := sweepLog s1 @
                          [Warn ''failed processing a request due to invalid request or response'' []]\<rparr>
               else
                 case ParseHTTPRequest ops requestBuf of
                   Inl err \<Rightarrow>
                     s1\<lparr>sweepLog := sweepLog s1 @
                          [LogError (Some err) ''failed to parse the http request from byte array'']\<rparr>
                 | Inr parsedHttpReq \<Rightarrow>
                     (case ParseHTTPResponse ops responseBuf parsedHttpReq of
                        Inl err \<Rightarrow>
                          s1\<lparr>sweepLog := sweepLog s1 @
                               [LogError (Some err) ''failed to parse the http response from byte array'']\<rparr>
                      | Inr parsedHttpRes \<Rightarrow>
                          (case capture (clockUnix ops) parsedHttpReq parsedHttpRes reqTimestampTest
                                  resTimestampTest (outChan s1, sweepLog s1) of
                             (t, lg) \<Rightarrow> s1\<lparr>outChan := t, sweepLog := lg\<rparr>))
             else if IsInactive ops tracker'
             then s1\<lparr>trackersToDelete := trackersToDelete s1 @ [connID]\<rparr>
             else s1)"

fun trackerLoop ::
  "'tr trackerOps \<Rightarrow> (nat \<Rightarrow> bool) \<Rightarrow> nat \<Rightarrow> ('id \<times> 'tr) list \<Rightarrow> ('id, 'tr) sweep \<Rightarrow> ('id, 'tr) sweep" where
  "trackerLoop ops ctxDone i [] s = s"
| "trackerLoop ops ctxDone i ((connID, tracker) # rest) s =
     (if ctxDone i
      then s\<lparr>returned := True, visited := visited s @ (connID, tracker) # rest\<rparr>
      else trackerLoop ops ctxDone (Suc i) rest (visit ops connID tracker s))"

text \<open>\<open>ProcessActiveTrackers\<close>: the loop, then the deletions, unless the loop returned.\<close>

definition deleteAll :: "'id list \<Rightarrow> ('id \<times> 'tr) list \<Rightarrow> ('id \<times> 'tr) list" where
  "deleteAll keys connections = filter (\<lambda>entry. fst entry \<notin> set keys) connections"

record ('id, 'tr) factoryResult =
  connections :: "('id \<times> 'tr) list"
  sent :: "TestCase list"
  factoryLog :: "LogEntry list"

definition ProcessActiveTrackers ::
  "'tr trackerOps \<Rightarrow> (nat \<Rightarrow> bool) \<Rightarrow> ('id \<times> 'tr) list \<Rightarrow> TestCase list \<Rightarrow> ('id, 'tr) factoryResult" where
  "ProcessActiveTrackers ops ctxDone conns t =
     (let s = trackerLoop ops ctxDone 0 conns
                \<lparr>trackersToDelete = [], outChan = t, sweepLog = [], visited = [], returned = False\<rparr>
      in \<lparr>connections = (if returned s then visited s else deleteAll (trackersToDelete s) (visited s)),
          sent = outChan s, factoryLog = sweepLog s\<rparr>)"

text \<open>A tracker "produces" a test case: it is complete with both buffers non-empty and
  the test case carries its two timestamps.\<close>

definition fromTracker :: "'tr trackerOps \<Rightarrow> 'tr \<Rightarrow> TestCase \<Rightarrow> bool" where
  "fromTracker ops tracker tc =
     (case IsComplete ops tracker of
        ((ok, requestBuf, responseBuf, reqTs, resTs), tracker') \<Rightarrow>
          ok \<and> requestBuf \<noteq> [] \<and> responseBuf \<noteq> [] \<and>
          Timestamp (HttpReq tc) = reqTs \<and> RespTimestamp (HttpResp tc) = resTs)"

text \<open>
  Example trackers for the pass: the tracker is the pair of what \<open>IsComplete\<close> returns and
  what \<open>IsInactive\<close> returns, and the request parser accepts the three bytes \<open>GET\<close> only.
\<close>

type_synonym exTracker = "(bool \<times> byte list \<times> byte list \<times> Time \<times> Time) \<times> bool"

definition getRequest :: Request where
  "getRequest =
     \<lparr>ReqMethod = ''GET'', ReqProtoMajor = 1, ReqProtoMinor = 1, Host = ''x'',
      RequestURI = ''/hello'', ReqYamlHeader = [(''Host'', ''x'')], ReqUrlParams = [],
      ReqReadAll = Inr ''''\<rparr>"

definition helloResponse :: Response where
  "helloResponse =
     \<lparr>ResStatusCode = 200, ResYamlHeader = [(''Content-Length'', ''5'')],
      ResReadAll = Inr ''hello''\<rparr>"

definition exampleOps :: "exTracker trackerOps" where
  "exampleOps =
     \<lparr>IsComplete = (\<lambda>tr. (fst tr, tr)), IsInactive = snd,
      ParseHTTPRequest = (\<lambda>b. if b = [71, 69, 84] then Inr getRequest
                               else Inl (Error ''malformed HTTP request'')),
      ParseHTTPResponse = (\<lambda>b req. Inr helloResponse),
      clockUnix = 0\<rparr>"

definition completeTracker :: exTracker where
  "completeTracker = ((True, [71, 69, 84], [72], time100, time200), False)"

definition garbledTracker :: exTracker where
  "garbledTracker = ((True, [0], [72], time100, time200), False)"

definition idleTracker :: exTracker where
  "idleTracker = ((False, [71], [], zeroTime, zeroTime), True)"

definition helloTestCase :: TestCase where
  "helloTestCase = newTestCase 0 getRequest helloResponse '''' ''hello'' time100 time200"

section \<open>The replayer: \<open>Start\<close>, \<open>BootReplay\<close>, \<open>RunTestSet\<close>, \<open>SimulateRequest\<close>\<close>

text \<open>
  Modelled from the spec: the status types of package \<open>models\<close> are not among the sources;
  their values are the constants the code names, which are the statuses the spec lists.
  With them the kinds of application error, and the status a report stores:
  \<open>string(models.TestStatusRunning)\<close> in the first report of a test set,
  \<open>string(testSetStatus)\<close> in the last.
\<close>

datatype TestSetStatus =
    TestSetStatusRunning
  | TestSetStatusFailed
  | TestSetStatusPassed
  | TestSetStatusAppHalted
  | TestSetStatusUserAbort
  | TestSetStatusFaultUserApp
  | TestSetStatusInternalErr

datatype TestStatus = TestStatusUnset | TestStatusPassed | TestStatusFailed | TestStatusRunning

datatype AppErrorType =
    ErrCommandError
  | ErrUnExpected
  | ErrAppStopped
  | ErrCtxCanceled
  | ErrInternal
  | ErrOther

datatype ReportStatus = OfTestStatus TestStatus | OfTestSetStatus TestSetStatus

datatype CmdType = Docker | DockerCompose | Native

type_synonym GlobalNoise = "(string \<times> (string \<times> string list) list) list"

record 'res TestResult =
  ResultKind :: Kind
  ResultName :: string
  ResultStatus :: TestStatus
  Started :: int
  Completed :: int
  TestCaseID :: string
  Req :: HttpReq
  Res :: HttpResp
  TestCasePath :: string
  MockPath :: string
  ResultNoise :: "(string \<times> string list) list"
  Result :: 'res

record 'res TestReport =
  ReportVersion :: string
  TestSet :: string
  Status :: ReportStatus
  Total :: int
  Success :: int
  Failure :: int
  Tests :: "'res TestResult list"

text \<open>
  The collaborators of the replayer are interfaces whose implementations are not among
  the sources. Each call takes the state of everything outside the replayer (\<open>'w\<close>) and
  returns its result with the state after the call. The fields of the struct:
\<close>

record 'w TestDB =
  GetAllTestSetIds :: "'w \<Rightarrow> (error + string list) \<times> 'w"
  GetTestCases :: "string \<Rightarrow> 'w \<Rightarrow> (error + TestCase list) \<times> 'w"

record 'w MockDB =
  GetFilteredMocks :: "string \<Rightarrow> Time \<Rightarrow> Time \<Rightarrow> 'w \<Rightarrow> (error + Mock list) \<times> 'w"
  GetUnFilteredMocks :: "string \<Rightarrow> Time \<Rightarrow> Time \<Rightarrow> 'w \<Rightarrow> (error + Mock list) \<times> 'w"

record ('w, 'res) ReportDB =
  GetAllTestRunIds :: "'w \<Rightarrow> (error + string list) \<times> 'w"
  InsertReport :: "string \<Rightarrow> string \<Rightarrow> 'res TestReport \<Rightarrow> 'w \<Rightarrow> error option \<times> 'w"
  InsertTestCaseResult ::
    "string \<Rightarrow> string \<Rightarrow> string \<Rightarrow> 'res TestResult \<Rightarrow> 'w \<Rightarrow> error option \<times> 'w"
  GetTestCaseResults :: "string \<Rightarrow> string \<Rightarrow> 'w \<Rightarrow> (error + 'res TestResult list) \<times> 'w"

record 'w Instrumentation =
  Setup :: "string \<Rightarrow> 'w \<Rightarrow> (error + nat) \<times> 'w"
  Hook :: "nat \<Rightarrow> 'w \<Rightarrow> error option \<times> 'w"
  SetMocks :: "nat \<Rightarrow> Mock list \<Rightarrow> Mock list \<Rightarrow> 'w \<Rightarrow> error option \<times> 'w"
  MockOutgoing :: "nat \<Rightarrow> 'w \<Rightarrow> 'w"
  GetAppIp :: "nat \<Rightarrow> 'w \<Rightarrow> (error + string) \<times> 'w"

record Config =
  Command :: string
  Path :: string
  Global :: GlobalNoise
  Testsets :: "string \<rightharpoonup> GlobalNoise"
  IgnoreOrdering :: bool

text \<open>
  What the replayer takes from outside its struct: functions of other packages
  (\<open>pkg.NewId\<close>, \<open>pkg.SimulateHttp\<close>, \<open>utils.FindDockerCmd\<close>, \<open>replaceHostToIP\<close>, \<open>match\<close>,
  \<open>LeftJoinNoise\<close>, \<open>models.GetVersion\<close> is above), the clock, and the scheduler:
  \<open>startCtxDone\<close> says whether the context of \<open>Start\<close> is cancelled; \<open>pollExitLoop\<close> is the
  \<open>select\<close> on \<open>exitLoopChan\<close>, which receives when the watcher goroutine is at its send
  and gives the signal the watcher reacted to; \<open>runTestSetCtxCanceled\<close> is the test of
  \<open>runTestSetCtx.Err()\<close>; the two \<open>Wait\<close> are the joins of the error groups.
\<close>

datatype signal = MockErr error | AppErr AppErrorType | CtxDone

record ('w, 'res) Runtime =
  NewId :: "string list \<Rightarrow> string"
  SimulateHttp :: "TestCase \<Rightarrow> string \<Rightarrow> 'w \<Rightarrow> (HttpResp option \<times> error option) \<times> 'w"
  FindDockerCmd :: "string \<Rightarrow> CmdType"
  replaceHostToIP :: "string \<Rightarrow> string \<Rightarrow> string \<times> error option"
  matchResp :: "TestCase \<Rightarrow> HttpResp option \<Rightarrow> GlobalNoise \<Rightarrow> bool \<Rightarrow> bool \<times> 'res option"
  LeftJoinNoise :: "GlobalNoise \<Rightarrow> GlobalNoise \<Rightarrow> GlobalNoise"
  Now :: "'w \<Rightarrow> Time"
  startCtxDone :: "'w \<Rightarrow> bool"
  pollExitLoop :: "'w \<Rightarrow> signal option \<times> 'w"
  runTestSetCtxCanceled :: "'w \<Rightarrow> bool"
  WaitRunTestSetErrGrp :: "'w \<Rightarrow> error option \<times> 'w"
  WaitErrGrp :: "'w \<Rightarrow> error option \<times> 'w"

record ('w, 'res) replayer =
  zapLogger :: "unit option"
  testDB :: "'w TestDB"
  mockDB :: "'w MockDB"
  reportDB :: "('w, 'res) ReportDB"
  instrumentation :: "'w Instrumentation"
  config :: Config
  runtime :: "('w, 'res) Runtime"

subsection \<open>\<open>BootReplay\<close>\<close>

definition BootReplay :: "('w, 'res) replayer \<Rightarrow> 'w \<Rightarrow> (error + string \<times> nat) \<times> 'w" where
  "BootReplay r w =
     (case GetAllTestRunIds (reportDB r) w of
        (Inl err, w1) \<Rightarrow>
          (if isCanceled err then (Inl err, w1)
           else (Inl (Wrap ''failed to get all test run ids'' err), w1))
      | (Inr testRunIds, w1) \<Rightarrow>
          let newTestRunId = NewId (runtime r) testRunIds
          in case Setup (instrumentation r) (Command (config r)) w1 of
               (Inl err, w2) \<Rightarrow>
                 (if isCanceled err then (Inl err, w2)
                  else (Inl (Wrap ''failed to setup instrumentation'' err), w2))
             | (Inr appId, w2) \<Rightarrow>
                 if startCtxDone (runtime r) w2 then (Inl ContextCanceled, w2)
                 else case Hook (instrumentation r) appId w2 of
                        (Some err, w3) \<Rightarrow>
                          (if isCanceled err then (Inl err, w3)
                           else (Inl (Wrap ''failed to start the hooks and proxy'' err), w3))
                      | (None, w3) \<Rightarrow> (Inr (newTestRunId, appId), w3))"

subsection \<open>\<open>SimulateRequest\<close> and \<open>compareResp\<close>\<close>

text \<open>
  \<open>SimulateRequest\<close> returns the response pointer and the error, and the test case as it
  leaves it: under Docker the URL is overwritten with what \<open>replaceHostToIP\<close> returned,
  also when that call failed (the error is only logged). The logger handed on to the
  simulation is taken to be non-nil; what is logged is left out.
\<close>

definition SimulateRequest ::
  "('w, 'res) replayer \<Rightarrow> nat \<Rightarrow> TestCase \<Rightarrow> string \<Rightarrow> 'w \<Rightarrow>
   ((HttpResp option \<times> error option) \<times> TestCase) \<times> 'w" where
  "SimulateRequest r appId tc testSetId w =
     (if TcKind tc = HTTP then
        let cmdType = FindDockerCmd (runtime r) (Command (config r))
        in if cmdType = Docker \<or> cmdType = DockerCompose then
             case GetAppIp (instrumentation r) appId w of
               (Inl err, w1) \<Rightarrow> (((None, Some err), tc), w1)
             | (Inr userIp, w1) \<Rightarrow>
                 let tc' = tc\<lparr>HttpReq := (HttpReq tc)
                             \<lparr>URL := fst (replaceHostToIP (runtime r) (URL (HttpReq tc)) userIp)\<rparr>\<rparr>
                 in case SimulateHttp (runtime r) tc' testSetId w1 of
                      (res, w2) \<Rightarrow> ((res, tc'), w2)
           else case SimulateHttp (runtime r) tc testSetId w of
                  (res, w1) \<Rightarrow> ((res, tc), w1)
      else (((None, None), tc), w))"

definition compareResp ::
  "('w, 'res) replayer \<Rightarrow> TestCase \<Rightarrow> HttpResp option \<Rightarrow> string \<Rightarrow> bool \<times> 'res option" where
  "compareResp r tc actualResponse testSetId =
     (let noiseConfig =
            (case Testsets (config r) testSetId of
               None \<Rightarrow> Global (config r)
             | Some tsNoise \<Rightarrow> LeftJoinNoise (runtime r) (Global (config r)) tsNoise)
      in matchResp (runtime r) tc actualResponse noiseConfig (IgnoreOrdering (config r)))"

subsection \<open>The test loop of \<open>RunTestSet\<close>\<close>

text \<open>
  The watcher goroutine of \<open>RunTestSet\<close> turns the first signal into
  \<open>testSetStatusByErrChan\<close>; on \<open>ErrCtxCanceled\<close> it returns without sending on
  \<open>exitLoopChan\<close>.
\<close>

fun statusBySignal :: "signal \<Rightarrow> TestSetStatus option" where
  "statusBySignal (MockErr err) = Some TestSetStatusFailed"
| "statusBySignal (AppErr ErrCommandError) = Some TestSetStatusFaultUserApp"
| "statusBySignal (AppErr ErrUnExpected) = Some TestSetStatusAppHalted"
| "statusBySignal (AppErr ErrAppStopped) = Some TestSetStatusAppHalted"
| "statusBySignal (AppErr ErrCtxCanceled) = None"
| "statusBySignal (AppErr ErrInternal) = Some TestSetStatusInternalErr"
| "statusBySignal (AppErr ErrOther) = Some TestSetStatusAppHalted"
| "statusBySignal CtxDone = Some TestSetStatusUserAbort"

text \<open>
  The variables of the loop, the state outside, and the calls of \<open>InsertTestCaseResult\<close>
  made so far (test case name and result). What the loop writes to the log is left out. An iteration ends at one of the six \<open>break\<close>
  statements of the loop body or at the end of the body; \<open>Continue\<close> holds \<open>testPass\<close>.
  The \<open>break\<close> in the \<open>select\<close> at the head of the body leaves the \<open>select\<close> only.
\<close>

record ('w, 'res) loopState =
  testSetStatus :: TestSetStatus
  success :: int
  failure :: int
  inserted :: "(string \<times> 'res TestResult) list"
  world :: 'w

datatype step =
    BreakGetFilteredMocks
  | BreakGetUnFilteredMocks
  | BreakSetMocks
  | BreakSimulateRequest
  | BreakNilResult
  | BreakInsertTestCaseResult
  | Continue bool

definition newTestResult ::
  "('w, 'res) replayer \<Rightarrow> string \<Rightarrow> TestCase \<Rightarrow> TestStatus \<Rightarrow> int \<Rightarrow> int \<Rightarrow> 'res \<Rightarrow>
   'res TestResult" where
  "newTestResult r testSetId testCase testStatus started completed testResult =
     \<lparr>ResultKind = HTTP, ResultName = testSetId, ResultStatus = testStatus,
      Started = started, Completed = completed, TestCaseID = Name testCase,
      Req = \<lparr>Method = Method (HttpReq testCase), ProtoMajor = ProtoMajor (HttpReq testCase),
             ProtoMinor = ProtoMinor (HttpReq testCase), URL = URL (HttpReq testCase),
             URLParams = URLParams (HttpReq testCase), Header = Header (HttpReq testCase),
             Body = Body (HttpReq testCase), Timestamp = Timestamp (HttpReq testCase)\<rparr>,
      Res = \<lparr>StatusCode = StatusCode (HttpResp testCase),
             RespHeader = RespHeader (HttpResp testCase),
             RespBody = RespBody (HttpResp testCase),
             RespTimestamp = RespTimestamp (HttpResp testCase)\<rparr>,
      TestCasePath = Path (config r), MockPath = Path (config r),
      ResultNoise = Noise testCase, Result = testResult\<rparr>"

definition loopBody ::
  "('w, 'res) replayer \<Rightarrow> string \<Rightarrow> string \<Rightarrow> nat \<Rightarrow> TestCase \<Rightarrow> ('w, 'res) loopState \<Rightarrow>
   step \<times> ('w, 'res) loopState" where
  "loopBody r testSetId testRunId appId testCase s =
     (case pollExitLoop (runtime r) (world s) of
        (sig, w0) \<Rightarrow>
     let s0 = s\<lparr>testSetStatus :=
                   (case sig of
                      None \<Rightarrow> testSetStatus s
                    | Some sg \<Rightarrow>
                        (case statusBySignal sg of None \<Rightarrow> testSetStatus s | Some st \<Rightarrow> st))\<rparr>
     in case GetFilteredMocks (mockDB r) testSetId (Timestamp (HttpReq testCase))
               (RespTimestamp (HttpResp testCase)) w0 of
          (Inl err, w1) \<Rightarrow>
            (BreakGetFilteredMocks, s0\<lparr>testSetStatus := TestSetStatusInternalErr, world := w1\<rparr>)
        | (Inr filteredMocks', w1) \<Rightarrow>
     (case GetUnFilteredMocks (mockDB r) testSetId (Timestamp (HttpReq testCase))
               (RespTimestamp (HttpResp testCase)) w1 of
          (Inl err, w2) \<Rightarrow>
            (BreakGetUnFilteredMocks, s0\<lparr>testSetStatus := TestSetStatusInternalErr, world := w2\<rparr>)
        | (Inr unfilteredMocks', w2) \<Rightarrow>
     (case SetMocks (instrumentation r) appId filteredMocks' unfilteredMocks' w2 of
          (Some err, w3) \<Rightarrow>
            (BreakSetMocks, s0\<lparr>testSetStatus := TestSetStatusInternalErr, world := w3\<rparr>)
        | (None, w3) \<Rightarrow>
     let started = Now (runtime r) w3
     in (case SimulateRequest r appId testCase testSetId w3 of
          (((resp, Some err), tc'), w4) \<Rightarrow>
            (BreakSimulateRequest, s0\<lparr>testSetStatus := TestSetStatusUserAbort, world := w4\<rparr>)
        | (((resp, None), tc'), w4) \<Rightarrow>
     (case compareResp r tc' resp testSetId of
          (testPass, testResult) \<Rightarrow>
     let testStatus = (if testPass then TestStatusPassed else TestStatusFailed);
         s1 = (if testPass then s0\<lparr>success := success s0 + 1\<rparr>
               else s0\<lparr>failure := failure s0 + 1\<rparr>)
     in (case testResult of
          None \<Rightarrow>
            (BreakNilResult, s1\<lparr>testSetStatus := TestSetStatusInternalErr, world := w4\<rparr>)
        | Some res \<Rightarrow>
     let testCaseResult =
           newTestResult r testSetId tc' testStatus (Unix started) (Unix (Now (runtime r) w4)) res
     in (case InsertTestCaseResult (reportDB r) testRunId testSetId (Name tc') testCaseResult w4 of
          (Some err, w5) \<Rightarrow>
            (BreakInsertTestCaseResult,
             s1\<lparr>testSetStatus := TestSetStatusInternalErr, world := w5,
                inserted := inserted s1 @ [(Name tc', testCaseResult)]\<rparr>)
        | (None, w5) \<Rightarrow>
            (Continue testPass,
             (if \<not> testPass then s1\<lparr>testSetStatus := TestSetStatusFailed\<rparr> else s1)
               \<lparr>world := w5, inserted := inserted s1 @ [(Name tc', testCaseResult)]\<rparr>))))))))"

text \<open>The loop, with the list of the iterations it ran: how each ended, and the value
  of \<open>testSetStatus\<close> at that point.\<close>

fun testLoop ::
  "('w, 'res) replayer \<Rightarrow> string \<Rightarrow> string \<Rightarrow> nat \<Rightarrow> TestCase list \<Rightarrow> ('w, 'res) loopState \<Rightarrow>
   (step \<times> TestSetStatus) list \<times> ('w, 'res) loopState" where
  "testLoop r testSetId testRunId appId [] s = ([], s)"
| "testLoop r testSetId testRunId appId (testCase # rest) s =
     (case loopBody r testSetId testRunId appId testCase s of
        (Continue testPass, s') \<Rightarrow>
          (case testLoop r testSetId testRunId appId rest s' of
             (steps, s'') \<Rightarrow> ((Continue testPass, testSetStatus s') # steps, s''))
      | (exit, s') \<Rightarrow> ([(exit, testSetStatus s')], s'))"

text \<open>
  The value of \<open>testSetStatus\<close> after the \<open>select\<close> at the head of an iteration: the status
  the watcher goroutine derived from the signal when there is one on \<open>exitLoopChan\<close>, the
  value it had otherwise (the \<open>default\<close> branch).
\<close>

definition statusAfterSelect :: "signal option \<Rightarrow> TestSetStatus \<Rightarrow> TestSetStatus" where
  "statusAfterSelect sig status =
     (case sig of
        None \<Rightarrow> status
      | Some sg \<Rightarrow> (case statusBySignal sg of None \<Rightarrow> status | Some st \<Rightarrow> st))"

text \<open>
  An iteration that reaches the end of the loop body lets the loop go on to the next test
  case. The loop, started in state \<open>s\<close> on a list that begins with \<open>pre\<close>, arrives at the test
  case after \<open>pre\<close> when every iteration on \<open>pre\<close> reached the end of the body; \<open>arrives\<close>
  gives the state in which it arrives there.
\<close>

fun isContinue :: "step \<Rightarrow> bool" where
  "isContinue (Continue testPass) = True"
| "isContinue exit = False"

definition arrives ::
  "('w, 'res) replayer \<Rightarrow> string \<Rightarrow> string \<Rightarrow> nat \<Rightarrow> TestCase list \<Rightarrow> ('w, 'res) loopState \<Rightarrow>
   ('w, 'res) loopState option" where
  "arrives r testSetId testRunId appId pre s =
     (case testLoop r testSetId testRunId appId pre s of
        (trace, s') \<Rightarrow> if list_all (\<lambda>x. isContinue (fst x)) trace then Some s' else None)"

text \<open>
  Two ways the loop can treat the test case it arrives at after \<open>pre\<close>. It stops there: the
  iterations are those on \<open>pre\<close> and one more, which ends at the \<open>break\<close> named \<open>exit\<close> and
  leaves \<open>status\<close>, and no test case of \<open>rest\<close> is visited. Or it goes on: the iteration
  reaches the end of the body with \<open>testPass\<close>, the call of \<open>InsertTestCaseResult\<close> is
  recorded, the loop arrives at the next test case with \<open>status\<close> in the state that call
  left, and runs on \<open>rest\<close> from there.
\<close>

definition loopStops ::
  "('w, 'res) replayer \<Rightarrow> string \<Rightarrow> string \<Rightarrow> nat \<Rightarrow> TestCase list \<Rightarrow> TestCase \<Rightarrow> TestCase list \<Rightarrow>
   ('w, 'res) loopState \<Rightarrow> step \<Rightarrow> TestSetStatus \<Rightarrow> bool" where
  "loopStops r testSetId testRunId appId pre testCase rest s exit status =
     (\<not> isContinue exit \<and>
      fst (testLoop r testSetId testRunId appId (pre @ testCase # rest) s) =
        fst (testLoop r testSetId testRunId appId pre s) @ [(exit, status)] \<and>
      testSetStatus (snd (testLoop r testSetId testRunId appId (pre @ testCase # rest) s)) = status)"

definition loopGoesOn ::
  "('w, 'res) replayer \<Rightarrow> string \<Rightarrow> string \<Rightarrow> nat \<Rightarrow> TestCase list \<Rightarrow> TestCase \<Rightarrow> TestCase list \<Rightarrow>
   ('w, 'res) loopState \<Rightarrow> bool \<Rightarrow> TestSetStatus \<Rightarrow> string \<times> 'res TestResult \<Rightarrow> 'w \<Rightarrow> bool" where
  "loopGoesOn r testSetId testRunId appId pre testCase rest s testPass status persisted w =
     (case arrives r testSetId testRunId appId (pre @ [testCase]) s of
        None \<Rightarrow> False
      | Some s2 \<Rightarrow>
          testSetStatus s2 = status \<and> world s2 = w \<and>
          inserted s2 = inserted (snd (testLoop r testSetId testRunId appId pre s)) @ [persisted] \<and>
          testLoop r testSetId testRunId appId (pre @ testCase # rest) s =
            (fst (testLoop r testSetId testRunId appId pre s) @
               (Continue testPass, status) # fst (testLoop r testSetId testRunId appId rest s2),
             snd (testLoop r testSetId testRunId appId rest s2)) \<and>
          (rest = [] \<or>
           length pre + 2 \<le> length (fst (testLoop r testSetId testRunId appId
                                            (pre @ testCase # rest) s))))"

subsection \<open>\<open>RunTestSet\<close>\<close>

text \<open>
  What \<open>RunTestSet\<close> returns, with the last report it handed to \<open>InsertReport\<close> (if it
  got that far), the iterations of the test loop, and the state it leaves.
\<close>

record ('w, 'res) runResult =
  setStatus :: TestSetStatus
  setErr :: "error option"
  finalReport :: "'res TestReport option"
  steps :: "(step \<times> TestSetStatus) list"
  insertedResults :: "(string \<times> 'res TestResult) list"
  worldOut :: 'w
  globalsOut :: replayGlobals

text \<open>The part of \<open>RunTestSet\<close> after the loop: the results are fetched, the final report
  is written, the package variables are updated and the error group is joined.\<close>

definition finishTestSet ::
  "('w, 'res) replayer \<Rightarrow> string \<Rightarrow> string \<Rightarrow> TestCase list \<Rightarrow> (step \<times> TestSetStatus) list \<Rightarrow>
   ('w, 'res) loopState \<Rightarrow> replayGlobals \<Rightarrow> ('w, 'res) runResult" where
  "finishTestSet r testSetId testRunId testCases trace s g =
     (case GetTestCaseResults (reportDB r) testRunId testSetId (world s) of
        (fetched, w1) \<Rightarrow>
     let testCaseResults = (case fetched of Inl err \<Rightarrow> [] | Inr results \<Rightarrow> results);
         status = (case fetched of
                     Inl err \<Rightarrow>
                       if \<not> runTestSetCtxCanceled (runtime r) w1 then TestSetStatusInternalErr
                       else testSetStatus s
                   | Inr results \<Rightarrow> testSetStatus s);
         testReport = \<lparr>ReportVersion = GetVersion, TestSet = testSetId,
                       Status = OfTestSetStatus status, Total = int (length testCases),
                       Success = success s, Failure = failure s, Tests = testCaseResults\<rparr>
     in case InsertReport (reportDB r) testRunId testSetId testReport w1 of
          (Some err, w2) \<Rightarrow>
            \<lparr>setStatus = TestSetStatusInternalErr, setErr = Some (Error ''failed to insert report''),
             finalReport = Some testReport, steps = trace, insertedResults = inserted s,
             worldOut = w2, globalsOut = g\<rparr>
        | (None, w2) \<Rightarrow>
            let g' = g\<lparr>completeTestReport := (completeTestReport g)
                          (testSetId \<mapsto> \<lparr>total = Total testReport, passed = Success testReport,
                                         failed = Failure testReport\<rparr>),
                       totalTests := totalTests g + Total testReport,
                       totalTestPassed := totalTestPassed g + Success testReport,
                       totalTestFailed := totalTestFailed g + Failure testReport\<rparr>
            in case WaitRunTestSetErrGrp (runtime r) w2 of
                 (Some err, w3) \<Rightarrow>
                   \<lparr>setStatus = TestSetStatusInternalErr,
                    setErr = Some (Error ''error in runTestSetErrGrp''),
                    finalReport = Some testReport, steps = trace, insertedResults = inserted s,
                    worldOut = w3, globalsOut = g'\<rparr>
               | (None, w3) \<Rightarrow>
                   \<lparr>setStatus = status, setErr = None, finalReport = Some testReport,
                    steps = trace, insertedResults = inserted s, worldOut = w3,
                    globalsOut = g'\<rparr>)"

definition returnEarly ::
  "TestSetStatus \<Rightarrow> error option \<Rightarrow> 'w \<Rightarrow> replayGlobals \<Rightarrow> ('w, 'res) runResult" where
  "returnEarly st err w g =
     \<lparr>setStatus = st, setErr = err, finalReport = None, steps = [], insertedResults = [],
      worldOut = w, globalsOut = g\<rparr>"

text \<open>
  \<open>RunTestSet\<close>. The error check after \<open>MockOutgoing\<close> tests an error that is nil at that
  point and never fires. The application goroutine (started unless \<open>serveTest\<close>), the
  delay and the watcher goroutine act on the loop through \<open>pollExitLoop\<close> only.
\<close>

definition RunTestSet ::
  "('w, 'res) replayer \<Rightarrow> string \<Rightarrow> string \<Rightarrow> nat \<Rightarrow> bool \<Rightarrow> 'w \<Rightarrow> replayGlobals \<Rightarrow>
   ('w, 'res) runResult" where
  "RunTestSet r testSetId testRunId appId serveTest w g =
     (case GetTestCases (testDB r) testSetId w of
        (Inl err, w1) \<Rightarrow>
          returnEarly TestSetStatusFailed (Some (Wrap ''failed to get test cases'' err)) w1 g
      | (Inr testCases, w1) \<Rightarrow>
     if length testCases = 0 then returnEarly TestSetStatusPassed None w1 g
     else
     (case GetFilteredMocks (mockDB r) testSetId zeroTime (Now (runtime r) w1) w1 of
        (Inl err, w2) \<Rightarrow>
          returnEarly TestSetStatusFailed (Some (Wrap ''failed to get filtered mocks'' err)) w2 g
      | (Inr filteredMocks', w2) \<Rightarrow>
     (case GetUnFilteredMocks (mockDB r) testSetId zeroTime (Now (runtime r) w2) w2 of
        (Inl err, w3) \<Rightarrow>
          returnEarly TestSetStatusFailed (Some (Wrap ''failed to get unfiltered mocks'' err)) w3 g
      | (Inr unfilteredMocks', w3) \<Rightarrow>
     (case SetMocks (instrumentation r) appId filteredMocks' unfilteredMocks' w3 of
        (Some err, w4) \<Rightarrow>
          returnEarly TestSetStatusFailed (Some (Wrap ''failed to set mocks'' err)) w4 g
      | (None, w4) \<Rightarrow>
     let w5 = MockOutgoing (instrumentation r) appId w4;
         testReport = \<lparr>ReportVersion = GetVersion, TestSet = '''',
                       Status = OfTestStatus TestStatusRunning,
                       Total = int (length testCases), Success = 0, Failure = 0, Tests = []\<rparr>
     in (case InsertReport (reportDB r) testRunId testSetId testReport w5 of
        (Some err, w6) \<Rightarrow>
          returnEarly TestSetStatusFailed (Some (Wrap ''failed to insert report'' err)) w6 g
      | (None, w6) \<Rightarrow>
     (case testLoop r testSetId testRunId appId testCases
             \<lparr>testSetStatus = TestSetStatusPassed, success = 0, failure = 0, inserted = [],
              world = w6\<rparr> of
        (trace, s) \<Rightarrow> finishTestSet r testSetId testRunId testCases trace s g))))))"

subsection \<open>\<open>Start\<close>\<close>

text \<open>
  The body of \<open>Start\<close> up to its \<open>return\<close>: the stop reason, the returned error, the flag
  handed to \<open>printSummary\<close> when it is called, and what each call of \<open>RunTestSet\<close>
  returned. The error is built by \<open>fmt.Errorf(stopReason)\<close>, which reads the stop reason as
  a format string: the message of the error is the stop reason itself when that holds no
  \<open>%\<close>, which is what the model returns.
\<close>

record 'w startBody =
  stopReason :: string
  retErr :: "error option"
  summary :: "bool option"
  ran :: "(TestSetStatus \<times> error option) list"
  bodyWorld :: 'w
  bodyGlobals :: replayGlobals

fun testSetLoop ::
  "('w, 'res) replayer \<Rightarrow> string \<Rightarrow> nat \<Rightarrow> string list \<Rightarrow> bool \<Rightarrow> bool \<Rightarrow>
   (TestSetStatus \<times> error option) list \<Rightarrow> 'w \<Rightarrow> replayGlobals \<Rightarrow> 'w startBody" where
  "testSetLoop r testRunId appId [] testSetResult testRunResult sofar w g =
     \<lparr>stopReason = '''', retErr = None, summary = Some testRunResult, ran = sofar,
      bodyWorld = w, bodyGlobals = g\<rparr>"
| "testSetLoop r testRunId appId (testSetId # rest) testSetResult testRunResult sofar w g =
     (let res = RunTestSet r testSetId testRunId appId False w g;
          sofar' = sofar @ [(setStatus res, setErr res)];
          abort = \<lparr>stopReason = '''', retErr = None, summary = None, ran = sofar',
                   bodyWorld = worldOut res, bodyGlobals = globalsOut res\<rparr>
      in case setErr res of
           Some err \<Rightarrow>
             \<lparr>stopReason = ''failed to run test set: '' @ errString err,
              retErr = Some (Error (''failed to run test set: '' @ errString err)),
              summary = None, ran = sofar', bodyWorld = worldOut res,
              bodyGlobals = globalsOut res\<rparr>
         | None \<Rightarrow>
             (case setStatus res of
                TestSetStatusAppHalted \<Rightarrow> abort
              | TestSetStatusInternalErr \<Rightarrow> abort
              | TestSetStatusFaultUserApp \<Rightarrow> abort
              | TestSetStatusUserAbort \<Rightarrow> abort
              | TestSetStatusFailed \<Rightarrow>
                  testSetLoop r testRunId appId rest False (testRunResult \<and> False) sofar'
                    (worldOut res) (globalsOut res)
              | TestSetStatusPassed \<Rightarrow>
                  testSetLoop r testRunId appId rest True (testRunResult \<and> True) sofar'
                    (worldOut res) (globalsOut res)
              | TestSetStatusRunning \<Rightarrow>
                  testSetLoop r testRunId appId rest testSetResult
                    (testRunResult \<and> testSetResult) sofar' (worldOut res) (globalsOut res)))"

definition startBody :: "('w, 'res) replayer \<Rightarrow> 'w \<Rightarrow> replayGlobals \<Rightarrow> 'w startBody" where
  "startBody r w g =
     (case BootReplay r w of
        (Inl err, w1) \<Rightarrow>
          \<lparr>stopReason = ''failed to boot replay: '' @ errString err,
           retErr = Some (Error (''failed to boot replay: '' @ errString err)),
           summary = None, ran = [], bodyWorld = w1, bodyGlobals = g\<rparr>
      | (Inr (testRunId, appId), w1) \<Rightarrow>
          (case GetAllTestSetIds (testDB r) w1 of
             (Inl err, w2) \<Rightarrow>
               \<lparr>stopReason = ''failed to get all test set ids: '' @ errString err,
                retErr = Some (Error (''failed to get all test set ids: '' @ errString err)),
                summary = None, ran = [], bodyWorld = w2, bodyGlobals = g\<rparr>
           | (Inr testSetIds, w2) \<Rightarrow>
               testSetLoop r testRunId appId testSetIds False True [] w2 g))"



subsection \<open>An example replayer\<close>

text \<open>
  A replayer over a world that counts the requests sent. The application answers every
  request with the recorded response, except that it is down for the test case \<open>tc-down\<close>
  and answers \<open>tc-changed\<close> with another body; the results of \<open>test-set-1\<close> cannot be
  fetched. A comparison passes when the bodies agree.
\<close>

definition exampleCase :: "string \<Rightarrow> TestCase" where
  "exampleCase name =
     \<lparr>Version = GetVersion, Name = name, TcKind = HTTP, Created = 0,
      HttpReq = \<lparr>Method = ''GET'', ProtoMajor = 1, ProtoMinor = 1, URL = ''http://x/hello'',
                 URLParams = [], Header = [], Body = '''', Timestamp = time100\<rparr>,
      HttpResp = \<lparr>StatusCode = 200, RespHeader = [], RespBody = ''hello'',
                  RespTimestamp = time200\<rparr>,
      Noise = []\<rparr>"

definition exampleReplayer :: "(nat, string) replayer" where
  "exampleReplayer =
     \<lparr>zapLogger = Some (),
      testDB = \<lparr>GetAllTestSetIds = (\<lambda>w. (Inr [''test-set-0''], w)),
                GetTestCases = (\<lambda>testSetId w.
                  (Inr (if testSetId = ''test-set-0'' then [exampleCase ''tc-changed'']
                        else if testSetId = ''test-set-2''
                        then [exampleCase ''tc-changed'', exampleCase ''tc-down'',
                              exampleCase ''tc-ok'']
                        else [exampleCase ''tc-down'', exampleCase ''tc-ok'']), w))\<rparr>,
      mockDB = \<lparr>GetFilteredMocks = (\<lambda>testSetId a b w. (Inr [], w)),
                GetUnFilteredMocks = (\<lambda>testSetId a b w. (Inr [], w))\<rparr>,
      reportDB = \<lparr>GetAllTestRunIds = (\<lambda>w. (Inr [], w)),
                  InsertReport = (\<lambda>testRunId testSetId report w. (None, w)),
                  InsertTestCaseResult = (\<lambda>testRunId testSetId name result w. (None, w)),
                  GetTestCaseResults = (\<lambda>testRunId testSetId w.
                    (if testSetId = ''test-set-1'' then Inl (Error ''no results'') else Inr [], w))\<rparr>,
      instrumentation = \<lparr>Setup = (\<lambda>cmd w. (Inr 1, w)), Hook = (\<lambda>appId w. (None, w)),
                         SetMocks = (\<lambda>appId f u w. (None, w)), MockOutgoing = (\<lambda>appId w. w),
                         GetAppIp = (\<lambda>appId w. (Inr ''172.18.0.2'', w))\<rparr>,
      config = \<lparr>Command = ''./app'', Path = ''keploy'', Global = [], Testsets = Map.empty,
                IgnoreOrdering = False\<rparr>,
      runtime = \<lparr>NewId = (\<lambda>ids. ''test-run-0''),
                 SimulateHttp = (\<lambda>tc testSetId w.
                   if Name tc = ''tc-down'' then ((None, Some (Error ''connection refused'')), w)
                   else if Name tc = ''tc-changed''
                   then ((Some ((HttpResp tc)\<lparr>RespBody := ''bye''\<rparr>), None), Suc w)
                   else ((Some (HttpResp tc), None), Suc w)),
                 FindDockerCmd = (\<lambda>cmd. Native),
                 replaceHostToIP = (\<lambda>url ip. (url, None)),
                 matchResp = (\<lambda>tc resp noise ordering.
                   case resp of
                     None \<Rightarrow> (False, None)
                   | Some actual \<Rightarrow> (RespBody actual = RespBody (HttpResp tc), Some ''diff'')),
                 LeftJoinNoise = (\<lambda>a b. a),
                 Now = (\<lambda>w. time200),
                 startCtxDone = (\<lambda>w. False),
                 pollExitLoop = (\<lambda>w. (None, w)),
                 runTestSetCtxCanceled = (\<lambda>w. False),
                 WaitRunTestSetErrGrp = (\<lambda>w. (None, w)),
                 WaitErrGrp = (\<lambda>w. (None, w))\<rparr>\<rparr>"

definition noGlobals :: replayGlobals where
  "noGlobals = \<lparr>completeTestReport = Map.empty, totalTests = 0, totalTestPassed = 0,
                 totalTestFailed = 0\<rparr>"

definition startState :: "(nat, string) loopState" where
  "startState = \<lparr>testSetStatus = TestSetStatusPassed, success = 0, failure = 0, inserted = [],
                  world = 0\<rparr>"

text \<open>The state in which the loop of the example arrives at the second test case of
  \<open>test-set-2\<close>, after the comparison for \<open>tc-changed\<close> failed and was persisted.\<close>

definition afterChanged :: "(nat, string) loopState" where
  "afterChanged =
     \<lparr>testSetStatus = TestSetStatusFailed, success = 0, failure = 1,
      inserted = [(''tc-changed'',
                   newTestResult exampleReplayer ''test-set-2'' (exampleCase ''tc-changed'')
                     TestStatusFailed (Unix time200) (Unix time200) ''diff'')],
      world = 1\<rparr>"

definition cancelSet :: ctxPkg where
  "cancelSet = \<lparr>cancel = Some 0, invoked = [], logged = []\<rparr>"

section \<open>Properties of \<open>FilterTcsMocks\<close>\<close>

lemma filterLoop_filteredMocks:
  "filteredMocks (filterLoop tc ms s) = filteredMocks s @ filter (inWindow tc) ms"
proof (induction ms arbitrary: s)
  case Nil
  show ?case by simp
next
  case (Cons mock ms)
  show ?case
    by (simp add: Cons.IH Let_def inWindow_def After_def Before_def)
qed

text \<open>
  C1. When the test case has both timestamps, \<open>FilterTcsMocks\<close> returns exactly the mocks
  of the list, in order, that lack a request or a response timestamp or whose request
  timestamp is strictly after the test's request and whose response timestamp is strictly
  before the test's response; when the test case lacks a timestamp the list is returned
  unchanged.
\<close>

theorem FilterTcsMocks_window:
  "fst (FilterTcsMocks tc m) =
     (if Timestamp (HttpReq tc) = zeroTime \<or> RespTimestamp (HttpResp tc) = zeroTime then m
      else filter (\<lambda>mock.
             ReqTimestampMock (Spec mock) = zeroTime \<or> ResTimestampMock (Spec mock) = zeroTime \<or>
             (instant (Timestamp (HttpReq tc)) < instant (ReqTimestampMock (Spec mock)) \<and>
              instant (ResTimestampMock (Spec mock)) < instant (RespTimestamp (HttpResp tc)))) m)"
proof -
  have "inWindow tc = (\<lambda>mock.
             ReqTimestampMock (Spec mock) = zeroTime \<or> ResTimestampMock (Spec mock) = zeroTime \<or>
             (instant (Timestamp (HttpReq tc)) < instant (ReqTimestampMock (Spec mock)) \<and>
              instant (ResTimestampMock (Spec mock)) < instant (RespTimestamp (HttpResp tc))))"
    by (rule ext) (simp add: inWindow_def)
  then show ?thesis
    by (simp add: FilterTcsMocks_def Let_def filterLoop_filteredMocks)
qed

theorem FilterTcsMocks_window_witness:
  "fst (FilterTcsMocks
          (exampleCase ''tc-ok'')
          [\<lparr>MockVersion = GetVersion, MockKind = HTTP, MockName = ''A'',
            Spec = \<lparr>Metadata = Map.empty, MongoRequests = [], MongoResponses = [],
                     SpecCreated = 0, ReqTimestampMock = \<lparr>instant = 50, loc = None\<rparr>,
                     ResTimestampMock = \<lparr>instant = 60, loc = None\<rparr>\<rparr>\<rparr>,
           \<lparr>MockVersion = GetVersion, MockKind = HTTP, MockName = ''B'',
            Spec = \<lparr>Metadata = Map.empty, MongoRequests = [], MongoResponses = [],
                     SpecCreated = 0, ReqTimestampMock = \<lparr>instant = 120, loc = None\<rparr>,
                     ResTimestampMock = \<lparr>instant = 180, loc = None\<rparr>\<rparr>\<rparr>,
           \<lparr>MockVersion = GetVersion, MockKind = HTTP, MockName = ''C'',
            Spec = \<lparr>Metadata = Map.empty, MongoRequests = [], MongoResponses = [],
                     SpecCreated = 0, ReqTimestampMock = \<lparr>instant = 190, loc = None\<rparr>,
                     ResTimestampMock = \<lparr>instant = 250, loc = None\<rparr>\<rparr>\<rparr>,
           \<lparr>MockVersion = GetVersion, MockKind = HTTP, MockName = ''D'',
            Spec = \<lparr>Metadata = Map.empty, MongoRequests = [], MongoResponses = [],
                     SpecCreated = 0, ReqTimestampMock = zeroTime,
                     ResTimestampMock = zeroTime\<rparr>\<rparr>]) =
     [\<lparr>MockVersion = GetVersion, MockKind = HTTP, MockName = ''B'',
       Spec = \<lparr>Metadata = Map.empty, MongoRequests = [], MongoResponses = [],
                SpecCreated = 0, ReqTimestampMock = \<lparr>instant = 120, loc = None\<rparr>,
                ResTimestampMock = \<lparr>instant = 180, loc = None\<rparr>\<rparr>\<rparr>,
      \<lparr>MockVersion = GetVersion, MockKind = HTTP, MockName = ''D'',
       Spec = \<lparr>Metadata = Map.empty, MongoRequests = [], MongoResponses = [],
                SpecCreated = 0, ReqTimestampMock = zeroTime, ResTimestampMock = zeroTime\<rparr>\<rparr>]"
  by (simp add: FilterTcsMocks_window exampleCase_def time100_def time200_def zeroTime_def)

section \<open>Properties of \<open>Stop\<close>\<close>

text \<open>
  C7. \<open>Stop\<close> returns an error exactly when the logger is nil, the package-level cancel
  function is not set, or the reason is empty; in those cases no cancel function is
  invoked, and otherwise the stored cancel function is invoked once and nil is returned.
\<close>

theorem Stop_error_iff:
  "(fst (Stop logger reason g) \<noteq> None) = (logger = None \<or> cancel g = None \<or> reason = '''') \<and>
   (if logger = None \<or> cancel g = None \<or> reason = ''''
    then invoked (snd (Stop logger reason g)) = invoked g
    else fst (Stop logger reason g) = None \<and>
         invoked (snd (Stop logger reason g)) = invoked g @ [the (cancel g)])"
  by (cases logger; cases "cancel g") (simp_all add: Stop_def)

theorem Stop_error_iff_witness:
  "Stop (Some ()) ''tests finished'' cancelSet =
     (None, \<lparr>cancel = Some 0, invoked = [0],
             logged = [Info ''stopping Keploy'' [''reason'', ''tests finished'']]\<rparr>) \<and>
   fst (Stop (None :: unit option) ''tests finished'' cancelSet) = Some (Error ''logger is not set'') \<and>
   invoked (snd (Stop (Some ()) '''' cancelSet)) = []"
  using Stop_error_iff[of "Some ()" "''tests finished''" cancelSet]
    Stop_error_iff[of "None :: unit option" "''tests finished''" cancelSet]
    Stop_error_iff[of "Some ()" "''''" cancelSet]
  by (simp add: Stop_def cancelSet_def)

section \<open>Properties of \<open>Mongo.MatchType\<close>\<close>

lemma byte_lt: "unat (b :: byte) < 256"
  using unsigned_less[of b, where 'a=nat] by simp

lemma unat_byte_shift:
  fixes b :: byte
  assumes "k \<le> 24"
  shows "unat (push_bit k (ucast b) :: 32 word) = 2 ^ k * unat b"
proof -
  have "2 ^ k * unat b < 2 ^ k * 2 ^ 8"
    using byte_lt[of b] by simp
  also have "\<dots> = (2::nat) ^ (k + 8)" by (simp add: power_add)
  also have "\<dots> \<le> 2 ^ 32" using assms by (intro power_increasing) auto
  finally have lt: "2 ^ k * unat b < (2::nat) ^ 32" .
  have "unat (ucast b :: 32 word) = unat b"
    by (simp add: unsigned_ucast_eq take_bit_nat_eq_self_iff) (use byte_lt[of b] in simp)
  moreover have "unat (push_bit k (ucast b) :: 32 word)
      = take_bit 32 (push_bit k (unat (ucast b :: 32 word)))"
    by (simp add: unsigned_push_bit_eq)
  ultimately have "unat (push_bit k (ucast b) :: 32 word) = take_bit 32 (2 ^ k * unat b)"
    by (simp add: push_bit_eq_mult mult.commute)
  with lt show ?thesis by (simp add: take_bit_nat_eq_self_iff)
qed

lemma le32_unat:
  fixes b0 b1 b2 b3 :: byte
  shows "unat ((ucast b0 :: 32 word) OR push_bit 8 (ucast b1) OR push_bit 16 (ucast b2)
               OR push_bit 24 (ucast b3))
       = unat b0 + 256 * unat b1 + 65536 * unat b2 + 16777216 * unat b3"
proof -
  let ?w0 = "ucast b0 :: 32 word" and ?w1 = "push_bit 8 (ucast b1) :: 32 word"
  let ?w2 = "push_bit 16 (ucast b2) :: 32 word" and ?w3 = "push_bit 24 (ucast b3) :: 32 word"
  have e3: "?w2 OR ?w3 = ?w2 + ?w3"
    by (rule disjunctive_add[symmetric]) (auto simp add: bit_simps dest!: bit_imp_le_length)
  have e2: "?w1 OR (?w2 OR ?w3) = ?w1 + (?w2 OR ?w3)"
    by (rule disjunctive_add[symmetric]) (auto simp add: bit_simps dest!: bit_imp_le_length)
  have e1: "?w0 OR (?w1 OR (?w2 OR ?w3)) = ?w0 + (?w1 OR (?w2 OR ?w3))"
    by (rule disjunctive_add[symmetric]) (auto simp add: bit_simps dest!: bit_imp_le_length)
  have u0: "unat ?w0 = unat b0" using unat_byte_shift[of 0 b0] by simp
  have u1: "unat ?w1 = 256 * unat b1" using unat_byte_shift[of 8 b1] by simp
  have u2: "unat ?w2 = 65536 * unat b2" using unat_byte_shift[of 16 b2] by simp
  have u3: "unat ?w3 = 16777216 * unat b3" using unat_byte_shift[of 24 b3] by simp
  have bound: "unat b0 + 256 * unat b1 + 65536 * unat b2 + 16777216 * unat b3 < 2 ^ 32"
    using byte_lt[of b0] byte_lt[of b1] byte_lt[of b2] byte_lt[of b3] by simp
  have "unat (?w0 + (?w1 + (?w2 + ?w3)))
      = (unat b0 + 256 * unat b1 + 65536 * unat b2 + 16777216 * unat b3) mod 2 ^ 32"
    by (simp add: unat_word_ariths u0 u1 u2 u3 mod_simps add.assoc)
  with bound have s: "unat (?w0 + (?w1 + (?w2 + ?w3)))
      = unat b0 + 256 * unat b1 + 65536 * unat b2 + 16777216 * unat b3"
    by simp
  have "?w0 OR (?w1 OR (?w2 OR ?w3)) = ?w0 + (?w1 OR (?w2 OR ?w3))"
    by (rule e1)
  also have "\<dots> = ?w0 + (?w1 + (?w2 OR ?w3))"
    by (simp only: e2)
  also have "\<dots> = ?w0 + (?w1 + (?w2 + ?w3))"
    by (simp only: e3)
  finally show ?thesis using s by (simp only:)
qed

lemma int_of_uint32_uint: "int_of_uint32 w = uint w"
proof -
  have "uint w < 2 ^ 32" using uint_lt2p[of w] by simp
  then have "uint w < 2 ^ 63" by simp
  moreover have "uint (ucast w :: 64 word) = uint w"
    by (rule uint_up_ucast) (simp add: is_up)
  moreover have "- (2 ^ 63) \<le> uint w"
    by (rule order_trans[of _ 0]) simp_all
  ultimately show ?thesis
    by (simp add: int_of_uint32_def sint_uint signed_take_bit_int_eq_self)
qed

lemma Uint32_take4:
  assumes "4 \<le> length b"
  shows "Uint32 (take 4 b) =
     Some (ucast (b ! 0) OR push_bit 8 (ucast (b ! 1)) OR push_bit 16 (ucast (b ! 2))
           OR push_bit 24 (ucast (b ! 3)))"
proof -
  obtain b0 r0 where r0: "b = b0 # r0" using assms by (cases b) auto
  obtain b1 r1 where r1: "r0 = b1 # r1" using assms r0 by (cases r0) auto
  obtain b2 r2 where r2: "r1 = b2 # r2" using assms r0 r1 by (cases r1) auto
  obtain b3 r3 where r3: "r2 = b3 # r3" using assms r0 r1 r2 by (cases r2) auto
  show ?thesis by (simp add: r0 r1 r2 r3)
qed

text \<open>
  C8. \<open>MatchType\<close> never panics, and returns true exactly when the buffer has at least four
  bytes and the unsigned 32-bit little-endian integer in its first four bytes equals the
  buffer's length; a buffer shorter than four bytes yields false.
\<close>

theorem MatchType_length_prefix:
  "MatchType b = Some (4 \<le> length b \<and> le32 b = length b)"
proof (cases "length b < 4")
  case True
  then show ?thesis by (simp add: MatchType_def)
next
  case False
  then have len: "4 \<le> length b" by simp
  have "uint (ucast (b ! 0) OR push_bit 8 (ucast (b ! 1)) OR push_bit 16 (ucast (b ! 2))
              OR push_bit 24 (ucast (b ! 3)) :: 32 word) = int (le32 b)"
    unfolding le32_def le32_unat[symmetric] by simp
  with len show ?thesis
    by (simp add: MatchType_def Uint32_take4 int_of_uint32_uint)
qed

theorem MatchType_length_prefix_witness:
  "MatchType [5, 0, 0, 0, 7] = Some True \<and> MatchType [5, 0, 0, 0] = Some False \<and>
   MatchType [1, 2, 3] = Some False \<and> MatchType [4, 1, 0, 0] = Some False"
  by (simp add: MatchType_length_prefix le32_def)

section \<open>Properties of \<open>recordMessage\<close>\<close>

lemma reqStep_match:
  "payload ops req = Some v \<Longrightarrow> reqStep v ops req s = s\<lparr>shouldRecordCalls := False\<rparr>"
  by (auto simp: payload_def reqStep_def split: option.splits if_splits MongoMessage.splits list.splits)

lemma reqStep_mono:
  "\<not> shouldRecordCalls s \<Longrightarrow> \<not> shouldRecordCalls (reqStep v ops req s)"
  by (auto simp: reqStep_def split: option.splits if_splits MongoMessage.splits list.splits)

lemma reqLoop_mono:
  "\<not> shouldRecordCalls s \<Longrightarrow> \<not> shouldRecordCalls (reqLoop v ops reqs s)"
  by (induction reqs arbitrary: s) (auto simp: Let_def reqStep_mono)

lemma reqLoop_match:
  "req \<in> set reqs \<Longrightarrow> payload ops req = Some v \<Longrightarrow>
   panicked (reqLoop v ops reqs s) \<noteq> None \<or> \<not> shouldRecordCalls (reqLoop v ops reqs s)"
proof (induction reqs arbitrary: s)
  case Nil
  then show ?case by simp
next
  case (Cons r rs)
  show ?case
  proof (cases "r = req")
    case True
    then have "reqStep v ops r s = s\<lparr>shouldRecordCalls := False\<rparr>"
      using Cons.prems(2) by (simp add: reqStep_match)
    then show ?thesis
      using reqLoop_mono[of "s\<lparr>shouldRecordCalls := False\<rparr>" v ops rs]
      by (simp add: Let_def)
  next
    case False
    then have "req \<in> set rs" using Cons.prems(1) by simp
    then show ?thesis using Cons.IH[OF _ Cons.prems(2)] by (simp add: Let_def)
  qed
qed

lemma configLoop_mono:
  "\<not> shouldRecordCalls s \<Longrightarrow> \<not> shouldRecordCalls (configLoop vs ops reqs s)"
  by (induction vs arbitrary: s) (auto simp: Let_def reqLoop_mono)

lemma configLoop_match:
  "v \<in> set vs \<Longrightarrow> req \<in> set reqs \<Longrightarrow> payload ops req = Some v \<Longrightarrow>
   panicked (configLoop vs ops reqs s) \<noteq> None \<or> \<not> shouldRecordCalls (configLoop vs ops reqs s)"
proof (induction vs arbitrary: s)
  case Nil
  then show ?case by simp
next
  case (Cons u us)
  show ?case
  proof (cases "u = v")
    case True
    have "panicked (reqLoop v ops reqs s) \<noteq> None \<or> \<not> shouldRecordCalls (reqLoop v ops reqs s)"
      using reqLoop_match[OF Cons.prems(2,3)] .
    then show ?thesis
      using configLoop_mono[of "reqLoop v ops reqs s" us ops reqs] True
      by (auto simp: Let_def)
  next
    case False
    then have "v \<in> set us" using Cons.prems(1) by simp
    then show ?thesis using Cons.IH[OF _ Cons.prems(2,3)] by (simp add: Let_def)
  qed
qed


lemma reqStep_grows: "set (configRequests s) \<subseteq> set (configRequests (reqStep v ops req s))"
  by (auto simp: reqStep_def split: option.splits if_splits MongoMessage.splits list.splits)

lemma reqLoop_grows: "set (configRequests s) \<subseteq> set (configRequests (reqLoop v ops reqs s))"
proof (induction reqs arbitrary: s)
  case Nil
  show ?case by simp
next
  case (Cons r rs)
  show ?case using reqStep_grows[of s v ops r] Cons.IH[of "reqStep v ops r s"]
    by (auto simp: Let_def)
qed

lemma configLoop_grows:
  "set (configRequests s) \<subseteq> set (configRequests (configLoop vs ops reqs s))"
proof (induction vs arbitrary: s)
  case Nil
  show ?case by simp
next
  case (Cons v vs)
  show ?case using reqLoop_grows[of s v ops reqs] Cons.IH[of "reqLoop v ops reqs s"]
    by (auto simp: Let_def)
qed

lemma reqStep_observed:
  "panicked s = None \<Longrightarrow> panicked (reqStep v ops req s) = None \<Longrightarrow> v \<in> set (configRequests s) \<Longrightarrow>
   \<exists>p. payload ops req = Some p \<and> p \<in> set (configRequests (reqStep v ops req s))"
  by (auto simp: reqStep_def payload_def split: option.splits if_splits MongoMessage.splits list.splits)

lemma reqStep_panicked: "panicked s \<noteq> None \<Longrightarrow> panicked (reqStep v ops req s) \<noteq> None"
  by (auto simp: reqStep_def split: option.splits if_splits MongoMessage.splits list.splits)

lemma reqLoop_observed:
  "panicked s = None \<Longrightarrow> panicked (reqLoop v ops reqs s) = None \<Longrightarrow> v \<in> set (configRequests s) \<Longrightarrow>
   \<forall>req \<in> set reqs. \<exists>p. payload ops req = Some p \<and> p \<in> set (configRequests (reqLoop v ops reqs s))"
proof (induction reqs arbitrary: s)
  case Nil
  show ?case by simp
next
  case (Cons r rs)
  let ?s' = "reqStep v ops r s"
  have np: "panicked ?s' = None" and rest: "panicked (reqLoop v ops rs ?s') = None"
    using Cons.prems(2) by (auto simp: Let_def split: if_splits)
  have v': "v \<in> set (configRequests ?s')" using Cons.prems(3) reqStep_grows by blast
  obtain p where p: "payload ops r = Some p" "p \<in> set (configRequests ?s')"
    using reqStep_observed[OF Cons.prems(1) np Cons.prems(3)] by blast
  have "p \<in> set (configRequests (reqLoop v ops rs ?s'))"
    using p(2) reqLoop_grows by blast
  with p(1) Cons.IH[OF np rest v'] np show ?case by (simp add: Let_def)
qed

lemma configLoop_panicked_first:
  "panicked (configLoop (v # vs) ops reqs s) = None \<Longrightarrow> panicked (reqLoop v ops reqs s) = None"
  by (auto simp: Let_def split: if_splits)

lemma configLoop_observed:
  assumes "panicked s = None" and "panicked (configLoop vs ops reqs s) = None"
    and "vs \<noteq> []" and "set vs \<subseteq> set (configRequests s)"
  shows "\<forall>req \<in> set reqs. \<exists>p. payload ops req = Some p \<and>
            p \<in> set (configRequests (configLoop vs ops reqs s))"
proof -
  obtain v us where vs: "vs = v # us" using assms(3) by (cases vs) auto
  let ?s' = "reqLoop v ops reqs s"
  have np: "panicked ?s' = None" using assms(2) configLoop_panicked_first vs by blast
  have "v \<in> set (configRequests s)" using assms(4) vs by auto
  from reqLoop_observed[OF assms(1) np this]
  have "\<forall>req \<in> set reqs. \<exists>p. payload ops req = Some p \<and> p \<in> set (configRequests ?s')" .
  moreover have "set (configRequests ?s') \<subseteq> set (configRequests (configLoop vs ops reqs s))"
    using np configLoop_grows[of ?s' us ops reqs] by (simp add: vs Let_def)
  ultimately show ?thesis by blast
qed

lemma recordMessage_observed:
  assumes "mongoRequests = firstReq # rs" and "MHeader firstReq = Some hdr"
    and "isHeartBeat opReq hdr (Message firstReq)" and "cfg \<noteq> []"
    and "panicOf (recordMessage String isHeartBeat nowUnix now mongoRequests mongoResponses
                       opReq reqTs cfg mocks) = None"
  shows "\<forall>req \<in> set mongoRequests. \<exists>p. payload (String opReq) req = Some p \<and>
            p \<in> set (configAfter (recordMessage String isHeartBeat nowUnix now mongoRequests
                       mongoResponses opReq reqTs cfg mocks))"
proof -
  let ?s0 = "\<lparr>configRequests = cfg, shouldRecordCalls = True, panicked = None\<rparr>"
  let ?s = "configLoop cfg (String opReq) mongoRequests ?s0"
  have c: "configAfter (recordMessage String isHeartBeat nowUnix now mongoRequests
                       mongoResponses opReq reqTs cfg mocks) = configRequests ?s"
    and p: "panicOf (recordMessage String isHeartBeat nowUnix now mongoRequests
                       mongoResponses opReq reqTs cfg mocks) = panicked ?s"
    using assms(1-3) by (auto simp: recordMessage_def Let_def)
  have "panicked ?s = None" using assms(5) p by simp
  from configLoop_observed[OF _ this assms(4)] show ?thesis unfolding c by simp
qed

text \<open>
  C9. For a request that \<open>isHeartBeat\<close> classifies as a heartbeat, \<open>recordMessage\<close> sends at
  most one mock, and the mock it sends carries the metadata \<open>type = config\<close>; when the
  payload of one of the requests is already in \<open>configRequests\<close>, nothing is sent on the
  mocks channel.
\<close>

theorem recordMessage_heartbeat:
  assumes "mongoRequests = firstReq # rs" and "MHeader firstReq = Some hdr"
    and "isHeartBeat opReq hdr (Message firstReq)"
  shows "(mocksChan (recordMessage String isHeartBeat nowUnix now mongoRequests mongoResponses
                       opReq reqTs cfg mocks) = mocks \<or>
          (\<exists>mock. mocksChan (recordMessage String isHeartBeat nowUnix now mongoRequests mongoResponses
                       opReq reqTs cfg mocks) = mocks @ [mock] \<and>
                  Metadata (Spec mock) ''type'' = Some ''config'' \<and>
                  MongoRequests (Spec mock) = mongoRequests)) \<and>
         ((\<exists>req \<in> set mongoRequests. \<exists>v \<in> set cfg. payload (String opReq) req = Some v) \<longrightarrow>
          mocksChan (recordMessage String isHeartBeat nowUnix now mongoRequests mongoResponses
                       opReq reqTs cfg mocks) = mocks)"
proof -
  let ?s = "configLoop cfg (String opReq) mongoRequests
              \<lparr>configRequests = cfg, shouldRecordCalls = True, panicked = None\<rparr>"
  have a: "(\<exists>req \<in> set mongoRequests. \<exists>v \<in> set cfg. payload (String opReq) req = Some v) \<Longrightarrow>
        panicked ?s \<noteq> None \<or> \<not> shouldRecordCalls ?s"
    using configLoop_match by blast
  let ?mock = "\<lparr>MockVersion = GetVersion, MockKind = Mongo, MockName = ''mocks'',
                 Spec = \<lparr>Metadata = [''operation'' \<mapsto> String opReq, ''type'' \<mapsto> ''config''],
                          MongoRequests = mongoRequests,
                          MongoResponses = mongoResponses, SpecCreated = nowUnix,
                          ReqTimestampMock = reqTs, ResTimestampMock = now\<rparr>\<rparr>"
  have r: "mocksChan (recordMessage String isHeartBeat nowUnix now mongoRequests mongoResponses
                       opReq reqTs cfg mocks) =
           (if panicked ?s = None \<and> shouldRecordCalls ?s then mocks @ [?mock] else mocks)"
    using assms by (simp add: recordMessage_def Let_def)
  have "Metadata (Spec ?mock) ''type'' = Some ''config'' \<and> MongoRequests (Spec ?mock) = mongoRequests"
    by simp
  then show ?thesis
    unfolding r using a by (cases "panicked ?s = None \<and> shouldRecordCalls ?s") auto
qed

theorem recordMessage_heartbeat_witness:
  "[helloRequest] = helloRequest # [] \<and> MHeader helloRequest = Some \<lparr>Opcode = 2004\<rparr> \<and>
   helloHeartBeat ''OpQuery'' \<lparr>Opcode = 2004\<rparr> (Message helloRequest) \<and>
   (\<exists>mock. mocksChan (recordMessage (\<lambda>op. op) helloHeartBeat 7 time200 [helloRequest] []
                          ''OpQuery'' time100 [''''] []) = [mock] \<and>
           Metadata (Spec mock) ''type'' = Some ''config'') \<and>
   mocksChan (recordMessage (\<lambda>op. op) helloHeartBeat 7 time200 [helloRequest] []
                ''OpQuery'' time100 ['''', ''hello:true''] []) = []"
proof -
  have h: "[helloRequest] = helloRequest # []" "MHeader helloRequest = Some \<lparr>Opcode = 2004\<rparr>"
    "helloHeartBeat ''OpQuery'' \<lparr>Opcode = 2004\<rparr> (Message helloRequest)"
    by (simp_all add: helloRequest_def helloHeartBeat_def)
  have p: "payload ''OpQuery'' helloRequest = Some ''hello:true''"
    by (simp add: payload_def helloRequest_def OpQuery_def)
  have sent: "mocksChan (recordMessage (\<lambda>op. op) helloHeartBeat 7 time200 [helloRequest] []
                          ''OpQuery'' time100 [''''] []) \<noteq> []"
    by (simp add: recordMessage_def helloRequest_def helloHeartBeat_def reqStep_def OpQuery_def)
  show ?thesis
    using h p sent
      recordMessage_heartbeat[where isHeartBeat = helloHeartBeat and opReq = "''OpQuery''"
        and mongoRequests = "[helloRequest]" and firstReq = helloRequest and rs = "[]"
        and hdr = "\<lparr>Opcode = 2004\<rparr>" and String = "\<lambda>op. op" and nowUnix = 7 and now = time200
        and mongoResponses = "[]" and reqTs = time100 and cfg = "['''']" and mocks = "[]"]
      recordMessage_heartbeat[where isHeartBeat = helloHeartBeat and opReq = "''OpQuery''"
        and mongoRequests = "[helloRequest]" and firstReq = helloRequest and rs = "[]"
        and hdr = "\<lparr>Opcode = 2004\<rparr>" and String = "\<lambda>op. op" and nowUnix = 7 and now = time200
        and mongoResponses = "[]" and reqTs = time100 and cfg = "['''', ''hello:true'']"
        and mocks = "[]"]
    by auto
qed

section \<open>Properties of the summary order\<close>

lemma suiteLess_numbers:
  "suiteNumber a = Some m \<Longrightarrow> suiteNumber b = Some n \<Longrightarrow> suiteLess a b = (m < n)"
  by (auto simp: suiteNumber_def suiteLess_def Let_def split: if_splits)

lemma suiteLess_short:
  "length (Split a (CHR ''-'')) < 3 \<or> length (Split b (CHR ''-'')) < 3 \<Longrightarrow>
   suiteLess a b = strLess a b"
  by (auto simp: suiteLess_def Let_def)

lemma mset_insertLeft: "mset (insertLeft lessFn x acc) = add_mset x (mset acc)"
  by (induction acc) auto

lemma set_insertLeft: "set (insertLeft lessFn x acc) = insert x (set acc)"
  by (induction acc) auto

lemma sorted_insertLeft:
  fixes k :: "'a \<Rightarrow> int"
  assumes "\<forall>p \<in> set acc. lessFn x p = (k x < k p)"
    and "sorted (map k (rev acc))"
  shows "sorted (map k (rev (insertLeft lessFn x acc)))"
  using assms
proof (induction acc)
  case Nil
  then show ?case by simp
next
  case (Cons p ps)
  show ?case
  proof (cases "lessFn x p")
    case True
    then have lt: "k x < k p" using Cons.prems(1) by simp
    have sp: "sorted (map k (rev ps))" and le: "\<forall>q \<in> set ps. k q \<le> k p"
      using Cons.prems(2) by (auto simp: sorted_append)
    have ih: "sorted (map k (rev (insertLeft lessFn x ps)))"
      using Cons.IH Cons.prems(1) sp by simp
    have "\<forall>q \<in> set (insertLeft lessFn x ps). k q \<le> k p"
      using le lt by (auto simp: set_insertLeft)
    with ih True show ?thesis by (auto simp: sorted_append)
  next
    case False
    then have "k p \<le> k x" using Cons.prems(1) by auto
    moreover have "\<forall>q \<in> set ps. k q \<le> k p"
      using Cons.prems(2) by (auto simp: sorted_append)
    ultimately show ?thesis using False Cons.prems(2) by (fastforce simp: sorted_append)
  qed
qed

lemma foldl_insertLeft:
  fixes k :: "'a \<Rightarrow> int"
  assumes "\<forall>x \<in> set xs \<union> set acc. \<forall>y \<in> set xs \<union> set acc. lessFn x y = (k x < k y)"
    and "sorted (map k (rev acc))"
  shows "sorted (map k (rev (foldl (\<lambda>acc x. insertLeft lessFn x acc) acc xs))) \<and>
         mset (foldl (\<lambda>acc x. insertLeft lessFn x acc) acc xs) = mset xs + mset acc"
  using assms
proof (induction xs arbitrary: acc)
  case Nil
  then show ?case by simp
next
  case (Cons x xs)
  have s: "sorted (map k (rev (insertLeft lessFn x acc)))"
    using Cons.prems by (intro sorted_insertLeft) auto
  have "\<forall>a \<in> set xs \<union> set (insertLeft lessFn x acc).
          \<forall>b \<in> set xs \<union> set (insertLeft lessFn x acc). lessFn a b = (k a < k b)"
    using Cons.prems(1) by (auto simp: set_insertLeft)
  from Cons.IH[OF this s] show ?case by (simp add: mset_insertLeft)
qed

lemma SliceStable_sorted:
  fixes k :: "'a \<Rightarrow> int"
  assumes "\<forall>x \<in> set xs. \<forall>y \<in> set xs. lessFn x y = (k x < k y)"
  shows "sorted (map k (SliceStable lessFn xs)) \<and> mset (SliceStable lessFn xs) = mset xs"
  using foldl_insertLeft[of xs "[]" lessFn k] assms by (simp add: SliceStable_def)

text \<open>
  C6. When every name has at least three dash-separated parts and a decimal third part
  (as \<open>test-set-10\<close> has), the summary rows are the names sorted by the number in the third
  part. A name with fewer than three parts is compared as a string: the list
  \<open>set-1, set-2, set-10\<close> is printed in the order \<open>set-1, set-10, set-2\<close>, while
  \<open>test-set-1, test-set-2, test-set-10\<close> keeps its order.
\<close>

theorem printSummary_order:
  assumes "0 < totalTests g"
  shows "((\<forall>name \<in> set names. suiteNumber name \<noteq> None) \<longrightarrow>
          (\<exists>out. printSummary g names = Some out \<and>
             sorted (map (\<lambda>name. the (suiteNumber name)) out) \<and> mset out = mset names)) \<and>
         (length (Split a (CHR ''-'')) < 3 \<or> length (Split b (CHR ''-'')) < 3 \<longrightarrow>
          suiteLess a b = strLess a b) \<and>
         printSummary g [''test-set-1'', ''test-set-2'', ''test-set-10''] =
           Some [''test-set-1'', ''test-set-2'', ''test-set-10''] \<and>
         printSummary g [''set-1'', ''set-2'', ''set-10''] =
           Some [''set-1'', ''set-10'', ''set-2'']"
proof (intro conjI impI)
  assume all: "\<forall>name \<in> set names. suiteNumber name \<noteq> None"
  have "\<forall>x \<in> set names. \<forall>y \<in> set names.
          suiteLess x y = (the (suiteNumber x) < the (suiteNumber y))"
  proof (intro ballI)
    fix x y assume "x \<in> set names" "y \<in> set names"
    then obtain m n where "suiteNumber x = Some m" "suiteNumber y = Some n"
      using all by (meson option.exhaust)
    then show "suiteLess x y = (the (suiteNumber x) < the (suiteNumber y))"
      by (simp add: suiteLess_numbers)
  qed
  from SliceStable_sorted[OF this] assms
  show "\<exists>out. printSummary g names = Some out \<and>
             sorted (map (\<lambda>name. the (suiteNumber name)) out) \<and> mset out = mset names"
    by (simp add: printSummary_def)
next
  assume "length (Split a (CHR ''-'')) < 3 \<or> length (Split b (CHR ''-'')) < 3"
  then show "suiteLess a b = strLess a b" by (rule suiteLess_short)
next
  show "printSummary g [''test-set-1'', ''test-set-2'', ''test-set-10''] =
           Some [''test-set-1'', ''test-set-2'', ''test-set-10'']"
    using assms by (simp add: printSummary_def SliceStable_def suiteLess_def Atoi_def digitVal_def)
next
  show "printSummary g [''set-1'', ''set-2'', ''set-10''] =
           Some [''set-1'', ''set-10'', ''set-2'']"
    using assms by (simp add: printSummary_def SliceStable_def suiteLess_def)
qed

theorem printSummary_order_witness:
  "0 < totalTests threeSets \<and>
   (suiteNumber ''test-set-10'' = Some 10 \<and> suiteNumber ''test-set-2'' = Some 2 \<and>
    suiteNumber ''test-set-1'' = Some 1) \<and>
   (\<exists>out. printSummary threeSets [''test-set-10'', ''test-set-2'', ''test-set-1''] = Some out \<and>
      sorted (map (\<lambda>name. the (suiteNumber name)) out) \<and>
      mset out = mset [''test-set-10'', ''test-set-2'', ''test-set-1'']) \<and>
   length (Split ''set-1'' (CHR ''-'')) < 3 \<and>
   suiteLess ''set-1'' ''set-10'' = strLess ''set-1'' ''set-10''"
proof -
  have n: "suiteNumber ''test-set-10'' = Some 10" "suiteNumber ''test-set-2'' = Some 2"
    "suiteNumber ''test-set-1'' = Some 1"
    by (simp_all add: suiteNumber_def Atoi_def digitVal_def)
  have s: "length (Split ''set-1'' (CHR ''-'')) < 3" by simp
  have pos: "0 < totalTests threeSets" by (simp add: threeSets_def)
  show ?thesis
    using n s pos printSummary_order[OF pos, of "[''test-set-10'', ''test-set-2'', ''test-set-1'']"
        "''set-1''" "''set-10''"]
    by simp
qed

theorem printSummary_lexicographic_counterexample:
  "printSummary threeSets [''set-1'', ''set-2'', ''set-10''] = Some [''set-1'', ''set-10'', ''set-2''] \<and>
   printSummary threeSets [''set-1'', ''set-2'', ''set-10''] \<noteq> Some [''set-1'', ''set-2'', ''set-10'']"
  by (simp add: printSummary_def SliceStable_def suiteLess_def threeSets_def)

section \<open>Properties of \<open>ProcessActiveTrackers\<close>\<close>

lemma capture_cases:
  "capture n req resp t1 t2 (t, lg) = (t', lg') \<Longrightarrow>
   t' = t \<or> (\<exists>b1 b2. ReqReadAll req = Inr b1 \<and> ResReadAll resp = Inr b2 \<and>
                t' = t @ [newTestCase n req resp b1 b2 t1 t2])"
  by (auto simp: capture_def split: sum.splits)

lemma newTestCase_timestamps:
  "Timestamp (HttpReq (newTestCase n req resp b1 b2 t1 t2)) = t1 \<and>
   RespTimestamp (HttpResp (newTestCase n req resp b1 b2 t1 t2)) = t2"
  by (simp add: newTestCase_def)

lemma visit_outChan:
  "outChan (visit ops connID tracker s) = outChan s \<or>
   (\<exists>tc. outChan (visit ops connID tracker s) = outChan s @ [tc] \<and> fromTracker ops tracker tc)"
proof -
  obtain ok rq rs t1 t2 tr' where ic: "IsComplete ops tracker = ((ok, rq, rs, t1, t2), tr')"
    by (metis prod_cases5 surj_pair)
  show ?thesis
  proof (cases "ok \<and> rq \<noteq> [] \<and> rs \<noteq> []")
    case False
    then show ?thesis using ic by (auto simp: visit_def Let_def)
  next
    case okc: True
    show ?thesis
    proof (cases "ParseHTTPRequest ops rq")
      case (Inl err)
      then show ?thesis using ic okc by (simp add: visit_def Let_def)
    next
      case (Inr req)
      show ?thesis
      proof (cases "ParseHTTPResponse ops rs req")
        case (Inl err)
        then show ?thesis using ic okc Inr by (simp add: visit_def Let_def)
      next
        case r2: (Inr resp)
        obtain t lg where cap: "capture (clockUnix ops) req resp t1 t2 (outChan s, sweepLog s) = (t, lg)"
          by (cases "capture (clockUnix ops) req resp t1 t2 (outChan s, sweepLog s)")
        have v: "outChan (visit ops connID tracker s) = t"
          using ic okc Inr r2 cap by (simp add: visit_def Let_def)
        from capture_cases[OF cap] show ?thesis
        proof
          assume "t = outChan s"
          then show ?thesis using v by simp
        next
          assume "\<exists>b1 b2. ReqReadAll req = Inr b1 \<and> ResReadAll resp = Inr b2 \<and>
                t = outChan s @ [newTestCase (clockUnix ops) req resp b1 b2 t1 t2]"
          then obtain b1 b2 where t: "t = outChan s @ [newTestCase (clockUnix ops) req resp b1 b2 t1 t2]"
            by blast
          have "fromTracker ops tracker (newTestCase (clockUnix ops) req resp b1 b2 t1 t2)"
            using ic okc by (simp add: fromTracker_def newTestCase_timestamps)
          then show ?thesis using v t by simp
        qed
      qed
    qed
  qed
qed

lemma visit_sends:
  assumes "IsComplete ops tracker = ((True, rq, rs, t1, t2), tr')" and "rq \<noteq> []" and "rs \<noteq> []"
    and "ParseHTTPRequest ops rq = Inr req" and "ParseHTTPResponse ops rs req = Inr resp"
    and "ReqReadAll req = Inr b1" and "ResReadAll resp = Inr b2"
  shows "outChan (visit ops connID tracker s) =
           outChan s @ [newTestCase (clockUnix ops) req resp b1 b2 t1 t2]"
  using assms by (simp add: visit_def Let_def capture_def)

lemma visit_visited:
  "visited (visit ops connID tracker s) = visited s @ [(connID, snd (IsComplete ops tracker))]"
  by (auto simp: visit_def Let_def split: prod.splits sum.splits)

lemma visit_returned: "returned (visit ops connID tracker s) = returned s"
  by (auto simp: visit_def Let_def split: prod.splits sum.splits)

lemma trackerLoop_sent:
  "\<exists>new. outChan (trackerLoop ops ctxDone i conns s) = outChan s @ new \<and>
         (\<forall>tc \<in> set new. \<exists>entry \<in> set conns. fromTracker ops (snd entry) tc)"
proof (induction conns arbitrary: s i)
  case Nil
  show ?case by simp
next
  case (Cons e rest)
  obtain connID tracker where e: "e = (connID, tracker)" by (cases e)
  show ?case
  proof (cases "ctxDone i")
    case True
    then show ?thesis by (simp add: e)
  next
    case nd: False
    let ?s1 = "visit ops connID tracker s"
    obtain new where new: "outChan (trackerLoop ops ctxDone (Suc i) rest ?s1) = outChan ?s1 @ new"
      "\<forall>tc \<in> set new. \<exists>entry \<in> set rest. fromTracker ops (snd entry) tc"
      using Cons.IH[of "Suc i" ?s1] by blast
    have loop: "trackerLoop ops ctxDone i (e # rest) s = trackerLoop ops ctxDone (Suc i) rest ?s1"
      using nd by (simp add: e)
    from visit_outChan[of ops connID tracker s] show ?thesis
    proof
      assume "outChan ?s1 = outChan s"
      then show ?thesis using loop new by auto
    next
      assume "\<exists>tc. outChan ?s1 = outChan s @ [tc] \<and> fromTracker ops tracker tc"
      then obtain tc where tc: "outChan ?s1 = outChan s @ [tc]" "fromTracker ops tracker tc" by blast
      have "outChan (trackerLoop ops ctxDone i (e # rest) s) = outChan s @ (tc # new)"
        using loop new(1) tc(1) by simp
      moreover have "\<forall>x \<in> set (tc # new). \<exists>entry \<in> set (e # rest). fromTracker ops (snd entry) x"
        using new(2) tc(2) by (auto simp: e)
      ultimately show ?thesis by blast
    qed
  qed
qed

lemma trackerLoop_prefix:
  "\<exists>new. outChan (trackerLoop ops ctxDone i conns s) = outChan s @ new"
  using trackerLoop_sent[of ops ctxDone i conns s] by blast

lemma trackerLoop_sends:
  assumes "\<forall>i. \<not> ctxDone i" and "(connID, tracker) \<in> set conns"
    and "\<And>s'. outChan (visit ops connID tracker s') = outChan s' @ [tc]"
  shows "\<exists>pre post. outChan (trackerLoop ops ctxDone i conns s) = outChan s @ pre @ tc # post"
  using assms(2)
proof (induction conns arbitrary: s i)
  case Nil
  then show ?case by simp
next
  case (Cons e rest)
  obtain c tr where e: "e = (c, tr)" by (cases e)
  let ?s1 = "visit ops c tr s"
  have loop: "trackerLoop ops ctxDone i (e # rest) s = trackerLoop ops ctxDone (Suc i) rest ?s1"
    using assms(1) by (simp add: e)
  show ?case
  proof (cases "e = (connID, tracker)")
    case True
    then have "outChan ?s1 = outChan s @ [tc]" using assms(3) e by simp
    moreover obtain new where "outChan (trackerLoop ops ctxDone (Suc i) rest ?s1) = outChan ?s1 @ new"
      using trackerLoop_prefix by blast
    ultimately have "outChan (trackerLoop ops ctxDone i (e # rest) s) = outChan s @ [] @ tc # new"
      using loop by simp
    then show ?thesis by blast
  next
    case False
    then have "(connID, tracker) \<in> set rest" using Cons.prems by simp
    from Cons.IH[OF this, of "Suc i" ?s1]
    obtain pre post where pp: "outChan (trackerLoop ops ctxDone (Suc i) rest ?s1) = outChan ?s1 @ pre @ tc # post"
      by blast
    from visit_outChan[of ops c tr s] show ?thesis
    proof
      assume "outChan ?s1 = outChan s"
      then show ?thesis using loop pp by auto
    next
      assume "\<exists>x. outChan ?s1 = outChan s @ [x] \<and> fromTracker ops tr x"
      then obtain x where "outChan ?s1 = outChan s @ [x]" by blast
      then have "outChan (trackerLoop ops ctxDone i (e # rest) s) = outChan s @ (x # pre) @ tc # post"
        using loop pp by simp
      then show ?thesis by blast
    qed
  qed
qed

lemma trackerLoop_keys:
  "map fst (visited (trackerLoop ops ctxDone i conns s)) = map fst (visited s) @ map fst conns"
proof (induction conns arbitrary: s i)
  case Nil
  show ?case by simp
next
  case (Cons e rest)
  obtain c tr where e: "e = (c, tr)" by (cases e)
  show ?case using Cons.IH[of "Suc i" "visit ops c tr s"]
    by (simp add: e visit_visited)
qed

lemma trackerLoop_not_returned:
  "\<forall>i. \<not> ctxDone i \<Longrightarrow> returned (trackerLoop ops ctxDone i conns s) = returned s"
proof (induction conns arbitrary: s i)
  case Nil
  show ?case by simp
next
  case (Cons e rest)
  obtain c tr where e: "e = (c, tr)" by (cases e)
  show ?case using Cons.IH[OF Cons.prems, of "Suc i" "visit ops c tr s"] Cons.prems
    by (simp add: e visit_returned)
qed

text \<open>
  C3. Whatever the context does, the channel after a pass is the channel before it
  followed by new test cases, and every new test case comes from a tracker of the
  registry whose \<open>IsComplete\<close> returned true with a non-empty request buffer and a
  non-empty response buffer, and carries the request and response timestamps that
  \<open>IsComplete\<close> returned for that tracker.
\<close>

theorem ProcessActiveTrackers_sent_from_trackers:
  "\<exists>new. sent (ProcessActiveTrackers ops ctxDone conns t) = t @ new \<and>
         (\<forall>tc \<in> set new. \<exists>entry \<in> set conns. fromTracker ops (snd entry) tc)"
  using trackerLoop_sent[of ops ctxDone 0 conns
      "\<lparr>trackersToDelete = [], outChan = t, sweepLog = [], visited = [], returned = False\<rparr>"]
  by (simp add: ProcessActiveTrackers_def Let_def)

theorem ProcessActiveTrackers_sent_from_trackers_witness:
  "sent (ProcessActiveTrackers exampleOps (\<lambda>i. False) [(1::nat, completeTracker)] []) =
     [] @ [helloTestCase] \<and>
   fromTracker exampleOps completeTracker helloTestCase"
  using ProcessActiveTrackers_sent_from_trackers[of exampleOps "\<lambda>i. False"
      "[(1::nat, completeTracker)]" "[]"]
  by (simp add: ProcessActiveTrackers_def visit_def exampleOps_def completeTracker_def
      capture_def getRequest_def helloResponse_def helloTestCase_def fromTracker_def
      newTestCase_def)

text \<open>
  C2. In a pass during which the context is never cancelled, every tracker whose
  \<open>IsComplete\<close> returned true with both buffers non-empty, whose buffers parse as an HTTP
  request and response and whose bodies can be read has had its test case sent on the
  channel; and the deletions are applied after the iteration: the loop leaves every
  connection ID in the registry, and the registry after the pass is the registry after
  the loop without the IDs the loop marked.
\<close>

theorem ProcessActiveTrackers_complete_sent:
  assumes "\<forall>i. \<not> ctxDone i"
  shows "(\<forall>connID tracker rq rs t1 t2 tr' req resp b1 b2.
            (connID, tracker) \<in> set conns \<and>
            IsComplete ops tracker = ((True, rq, rs, t1, t2), tr') \<and> rq \<noteq> [] \<and> rs \<noteq> [] \<and>
            ParseHTTPRequest ops rq = Inr req \<and> ParseHTTPResponse ops rs req = Inr resp \<and>
            ReqReadAll req = Inr b1 \<and> ResReadAll resp = Inr b2 \<longrightarrow>
            newTestCase (clockUnix ops) req resp b1 b2 t1 t2
              \<in> set (drop (length t) (sent (ProcessActiveTrackers ops ctxDone conns t)))) \<and>
         (let s = trackerLoop ops ctxDone 0 conns
                    \<lparr>trackersToDelete = [], outChan = t, sweepLog = [], visited = [],
                       returned = False\<rparr>
          in map fst (visited s) = map fst conns \<and>
             connections (ProcessActiveTrackers ops ctxDone conns t) =
               deleteAll (trackersToDelete s) (visited s))"
proof (intro conjI allI impI)
  fix connID tracker rq rs t1 t2 tr' req resp b1 b2
  assume h: "(connID, tracker) \<in> set conns \<and>
            IsComplete ops tracker = ((True, rq, rs, t1, t2), tr') \<and> rq \<noteq> [] \<and> rs \<noteq> [] \<and>
            ParseHTTPRequest ops rq = Inr req \<and> ParseHTTPResponse ops rs req = Inr resp \<and>
            ReqReadAll req = Inr b1 \<and> ResReadAll resp = Inr b2"
  let ?s0 = "\<lparr>trackersToDelete = [], outChan = t, sweepLog = [], visited = [],
               returned = False\<rparr> :: ('a, 'b) sweep"
  let ?tc = "newTestCase (clockUnix ops) req resp b1 b2 t1 t2"
  have v: "\<And>s :: ('a, 'b) sweep. outChan (visit ops connID tracker s) = outChan s @ [?tc]"
    using h by (intro visit_sends) auto
  obtain pre post where "outChan (trackerLoop ops ctxDone 0 conns ?s0) = outChan ?s0 @ pre @ ?tc # post"
    using trackerLoop_sends[OF assms, of connID tracker conns ops ?tc 0 ?s0] h v by blast
  then show "?tc \<in> set (drop (length t) (sent (ProcessActiveTrackers ops ctxDone conns t)))"
    by (simp add: ProcessActiveTrackers_def Let_def)
next
  show "let s = trackerLoop ops ctxDone 0 conns
                    \<lparr>trackersToDelete = [], outChan = t, sweepLog = [], visited = [],
                       returned = False\<rparr>
          in map fst (visited s) = map fst conns \<and>
             connections (ProcessActiveTrackers ops ctxDone conns t) =
               deleteAll (trackersToDelete s) (visited s)"
    using trackerLoop_not_returned[OF assms, of ops 0 conns
        "\<lparr>trackersToDelete = [], outChan = t, sweepLog = [], visited = [], returned = False\<rparr>"]
      trackerLoop_keys[of ops ctxDone 0 conns
        "\<lparr>trackersToDelete = [], outChan = t, sweepLog = [], visited = [], returned = False\<rparr>"]
    by (simp add: ProcessActiveTrackers_def Let_def)
qed

theorem ProcessActiveTrackers_complete_sent_witness:
  "(\<forall>i. \<not> (\<lambda>i. False) i) \<and>
   (1::nat, completeTracker) \<in> set [(1, completeTracker), (2, idleTracker)] \<and>
   IsComplete exampleOps completeTracker =
     ((True, [71, 69, 84], [72], time100, time200), completeTracker) \<and>
   ParseHTTPRequest exampleOps [71, 69, 84] = Inr getRequest \<and>
   ParseHTTPResponse exampleOps [72] getRequest = Inr helloResponse \<and>
   ReqReadAll getRequest = Inr '''' \<and> ResReadAll helloResponse = Inr ''hello'' \<and>
   helloTestCase \<in> set (drop (length ([] :: TestCase list))
     (sent (ProcessActiveTrackers exampleOps (\<lambda>i. False)
              [(1::nat, completeTracker), (2, idleTracker)] []))) \<and>
   connections (ProcessActiveTrackers exampleOps (\<lambda>i. False)
                  [(1::nat, completeTracker), (2, idleTracker)] []) = [(1, completeTracker)]"
proof -
  have nd: "\<forall>i. \<not> (\<lambda>i. False) i" by simp
  have h: "(1::nat, completeTracker) \<in> set [(1, completeTracker), (2, idleTracker)] \<and>
      IsComplete exampleOps completeTracker =
        ((True, [71, 69, 84], [72], time100, time200), completeTracker) \<and>
      [71, 69, 84] \<noteq> ([] :: byte list) \<and> [72] \<noteq> ([] :: byte list) \<and>
      ParseHTTPRequest exampleOps [71, 69, 84] = Inr getRequest \<and>
      ParseHTTPResponse exampleOps [72] getRequest = Inr helloResponse \<and>
      ReqReadAll getRequest = Inr '''' \<and> ResReadAll helloResponse = Inr ''hello''"
    by (simp add: exampleOps_def completeTracker_def getRequest_def helloResponse_def)
  note th = ProcessActiveTrackers_complete_sent[OF nd,
      of "[(1::nat, completeTracker), (2, idleTracker)]" exampleOps "[]"]
  have "newTestCase (clockUnix exampleOps) getRequest helloResponse '''' ''hello'' time100 time200
      \<in> set (drop (length ([] :: TestCase list))
          (sent (ProcessActiveTrackers exampleOps (\<lambda>i. False)
             [(1::nat, completeTracker), (2, idleTracker)] [])))"
    using th[THEN conjunct1, rule_format, OF h] .
  moreover have "clockUnix exampleOps = 0" by (simp add: exampleOps_def)
  moreover have "connections (ProcessActiveTrackers exampleOps (\<lambda>i. False)
                  [(1::nat, completeTracker), (2, idleTracker)] []) = [(1, completeTracker)]"
    by (simp add: ProcessActiveTrackers_def visit_def exampleOps_def completeTracker_def
        idleTracker_def capture_def getRequest_def helloResponse_def deleteAll_def)
  ultimately show ?thesis using h by (simp add: helloTestCase_def)
qed

theorem ProcessActiveTrackers_complete_counterexample:
  "fst (IsComplete exampleOps garbledTracker) = (True, [0], [72], time100, time200) \<and>
   sent (ProcessActiveTrackers exampleOps (\<lambda>i. False) [(1::nat, garbledTracker)] []) = [] \<and>
   map fst (connections (ProcessActiveTrackers exampleOps (\<lambda>i. False)
                           [(1::nat, garbledTracker)] [])) = [1] \<and>
   fst (IsComplete exampleOps completeTracker) = (True, [71, 69, 84], [72], time100, time200) \<and>
   sent (ProcessActiveTrackers exampleOps (\<lambda>i. False) [(1::nat, completeTracker)] []) =
     [helloTestCase] \<and>
   map fst (connections (ProcessActiveTrackers exampleOps (\<lambda>i. False)
                           [(1::nat, completeTracker)] [])) = [1]"
  by (simp add: ProcessActiveTrackers_def visit_def exampleOps_def completeTracker_def
      garbledTracker_def capture_def getRequest_def helloResponse_def helloTestCase_def
      deleteAll_def)

section \<open>Properties of the test loop\<close>

lemma loopBody_status:
  assumes "loopBody r testSetId testRunId appId testCase s = (st, s')"
  shows "(st = Continue False \<longrightarrow> testSetStatus s' = TestSetStatusFailed) \<and>
         (st \<in> {BreakGetFilteredMocks, BreakGetUnFilteredMocks, BreakSetMocks, BreakNilResult,
                 BreakInsertTestCaseResult} \<longrightarrow> testSetStatus s' = TestSetStatusInternalErr) \<and>
         (st = BreakSimulateRequest \<longrightarrow> testSetStatus s' = TestSetStatusUserAbort)"
  using assms unfolding loopBody_def Let_def
  by (auto split: prod.splits sum.splits option.splits if_splits)

lemma testLoop_Cons:
  "testLoop r testSetId testRunId appId (tc # rest) s =
     (case loopBody r testSetId testRunId appId tc s of
        (st, s') \<Rightarrow>
          (case st of
             Continue b \<Rightarrow>
               ((st, testSetStatus s') # fst (testLoop r testSetId testRunId appId rest s'),
                snd (testLoop r testSetId testRunId appId rest s'))
           | _ \<Rightarrow> ([(st, testSetStatus s')], s')))"
  by (auto split: prod.splits step.splits)

lemma testLoop_break:
  "loopBody r testSetId testRunId appId tc s = (exit, s') \<Longrightarrow> \<not> isContinue exit \<Longrightarrow>
   testLoop r testSetId testRunId appId (tc # rest) s = ([(exit, testSetStatus s')], s')"
  by (cases exit) (simp_all add: testLoop_Cons)

lemma testLoop_continue:
  "loopBody r testSetId testRunId appId tc s = (Continue b, s') \<Longrightarrow>
   testLoop r testSetId testRunId appId (tc # rest) s =
     ((Continue b, testSetStatus s') # fst (testLoop r testSetId testRunId appId rest s'),
      snd (testLoop r testSetId testRunId appId rest s'))"
  by (simp split: prod.splits)

lemma testLoop_nonempty:
  "fst (testLoop r testSetId testRunId appId (tc # rest) s) \<noteq> []"
  by (auto simp: testLoop_Cons split: prod.splits step.splits)

lemma arrives_Nil: "arrives r testSetId testRunId appId [] s = Some s"
  by (simp add: arrives_def)

lemma arrives_Cons:
  assumes "arrives r testSetId testRunId appId (tc # pre) s = Some s1"
  shows "\<exists>b s'. loopBody r testSetId testRunId appId tc s = (Continue b, s') \<and>
                arrives r testSetId testRunId appId pre s' = Some s1"
proof -
  obtain exit s' where body: "loopBody r testSetId testRunId appId tc s = (exit, s')"
    by (cases "loopBody r testSetId testRunId appId tc s")
  show ?thesis
  proof (cases "isContinue exit")
    case False
    then show ?thesis using assms testLoop_break[OF body False] by (simp add: arrives_def)
  next
    case True
    then obtain b where b: "exit = Continue b" by (cases exit) auto
    show ?thesis
      using assms testLoop_continue[OF body[unfolded b]] body b
      by (auto simp: arrives_def split: prod.splits if_splits)
  qed
qed

lemma testLoop_append:
  assumes "arrives r testSetId testRunId appId pre s = Some s1"
  shows "snd (testLoop r testSetId testRunId appId pre s) = s1 \<and>
         length (fst (testLoop r testSetId testRunId appId pre s)) = length pre \<and>
         testLoop r testSetId testRunId appId (pre @ post) s =
           (fst (testLoop r testSetId testRunId appId pre s) @
              fst (testLoop r testSetId testRunId appId post s1),
            snd (testLoop r testSetId testRunId appId post s1))"
  using assms
proof (induction pre arbitrary: s)
  case Nil
  then show ?case by (simp add: arrives_def)
next
  case (Cons tc pre)
  obtain b s' where body: "loopBody r testSetId testRunId appId tc s = (Continue b, s')"
    and rest: "arrives r testSetId testRunId appId pre s' = Some s1"
    using arrives_Cons[OF Cons.prems] by blast
  show ?case
    using Cons.IH[OF rest] testLoop_continue[OF body, of pre]
      testLoop_continue[OF body, of "pre @ post"]
    by simp
qed

lemma arrives_snoc:
  assumes "arrives r testSetId testRunId appId pre s = Some s1"
    and "loopBody r testSetId testRunId appId tc s1 = (Continue b, s2)"
  shows "arrives r testSetId testRunId appId (pre @ [tc]) s = Some s2"
proof -
  have pre: "list_all (\<lambda>x. isContinue (fst x)) (fst (testLoop r testSetId testRunId appId pre s))"
    using assms(1) by (auto simp: arrives_def split: prod.splits if_splits)
  have "testLoop r testSetId testRunId appId [tc] s1 = ([(Continue b, testSetStatus s2)], s2)"
    using testLoop_continue[OF assms(2), of "[]"] by simp
  then have "testLoop r testSetId testRunId appId (pre @ [tc]) s =
      (fst (testLoop r testSetId testRunId appId pre s) @ [(Continue b, testSetStatus s2)], s2)"
    using testLoop_append[OF assms(1), of "[tc]"] by simp
  then show ?thesis using pre by (simp add: arrives_def)
qed

lemma loopStopsI:
  assumes "arrives r testSetId testRunId appId pre s = Some s1"
    and "loopBody r testSetId testRunId appId tc s1 = (exit, s')"
    and "\<not> isContinue exit" and "testSetStatus s' = status"
  shows "loopStops r testSetId testRunId appId pre tc rest s exit status"
  using testLoop_append[OF assms(1), of "tc # rest"] testLoop_break[OF assms(2,3), of rest] assms(3,4)
  by (simp add: loopStops_def)

lemma loopGoesOnI:
  assumes "arrives r testSetId testRunId appId pre s = Some s1"
    and "loopBody r testSetId testRunId appId tc s1 = (Continue b, s2)"
    and "testSetStatus s2 = status" and "world s2 = w"
    and "inserted s2 = inserted s1 @ [persisted]"
  shows "loopGoesOn r testSetId testRunId appId pre tc rest s b status persisted w"
proof -
  note app = testLoop_append[OF assms(1), of "tc # rest"]
  have run: "testLoop r testSetId testRunId appId (pre @ tc # rest) s =
      (fst (testLoop r testSetId testRunId appId pre s) @
         (Continue b, status) # fst (testLoop r testSetId testRunId appId rest s2),
       snd (testLoop r testSetId testRunId appId rest s2))"
    using app testLoop_continue[OF assms(2), of rest] assms(3) by simp
  have len: "rest = [] \<or> length pre + 2 \<le>
      length (fst (testLoop r testSetId testRunId appId (pre @ tc # rest) s))"
  proof (cases rest)
    case Nil
    then show ?thesis by simp
  next
    case (Cons n more)
    have "fst (testLoop r testSetId testRunId appId rest s2) \<noteq> []"
      unfolding Cons by (rule testLoop_nonempty)
    then have "1 \<le> length (fst (testLoop r testSetId testRunId appId rest s2))"
      by (cases "fst (testLoop r testSetId testRunId appId rest s2)") auto
    then show ?thesis using run app by simp
  qed
  show ?thesis
    using arrives_snoc[OF assms(1,2)] assms(3,4,5) run len app
    by (simp add: loopGoesOn_def)
qed

lemma loopBody_filtered:
  assumes "pollExitLoop (runtime r) (world s1) = (sig, w0)"
    and "GetFilteredMocks (mockDB r) testSetId (Timestamp (HttpReq testCase))
             (RespTimestamp (HttpResp testCase)) w0 = (Inl err, w1)"
  shows "\<exists>s'. loopBody r testSetId testRunId appId testCase s1 = (BreakGetFilteredMocks, s') \<and>
              testSetStatus s' = TestSetStatusInternalErr"
  using assms by (simp add: loopBody_def Let_def)

lemma loopBody_unfiltered:
  assumes "pollExitLoop (runtime r) (world s1) = (sig, w0)"
    and "GetFilteredMocks (mockDB r) testSetId (Timestamp (HttpReq testCase))
             (RespTimestamp (HttpResp testCase)) w0 = (Inr fm, w1)"
    and "GetUnFilteredMocks (mockDB r) testSetId (Timestamp (HttpReq testCase))
             (RespTimestamp (HttpResp testCase)) w1 = (Inl err, w2)"
  shows "\<exists>s'. loopBody r testSetId testRunId appId testCase s1 = (BreakGetUnFilteredMocks, s') \<and>
              testSetStatus s' = TestSetStatusInternalErr"
  using assms by (simp add: loopBody_def Let_def)

lemma loopBody_setmocks:
  assumes "pollExitLoop (runtime r) (world s1) = (sig, w0)"
    and "GetFilteredMocks (mockDB r) testSetId (Timestamp (HttpReq testCase))
             (RespTimestamp (HttpResp testCase)) w0 = (Inr fm, w1)"
    and "GetUnFilteredMocks (mockDB r) testSetId (Timestamp (HttpReq testCase))
             (RespTimestamp (HttpResp testCase)) w1 = (Inr um, w2)"
    and "SetMocks (instrumentation r) appId fm um w2 = (Some err, w3)"
  shows "\<exists>s'. loopBody r testSetId testRunId appId testCase s1 = (BreakSetMocks, s') \<and>
              testSetStatus s' = TestSetStatusInternalErr"
  using assms by (simp add: loopBody_def Let_def)

lemma loopBody_simulate:
  assumes "pollExitLoop (runtime r) (world s1) = (sig, w0)"
    and "GetFilteredMocks (mockDB r) testSetId (Timestamp (HttpReq testCase))
             (RespTimestamp (HttpResp testCase)) w0 = (Inr fm, w1)"
    and "GetUnFilteredMocks (mockDB r) testSetId (Timestamp (HttpReq testCase))
             (RespTimestamp (HttpResp testCase)) w1 = (Inr um, w2)"
    and "SetMocks (instrumentation r) appId fm um w2 = (None, w3)"
    and "SimulateRequest r appId testCase testSetId w3 = (((resp, Some err), tc'), w4)"
  shows "\<exists>s'. loopBody r testSetId testRunId appId testCase s1 = (BreakSimulateRequest, s') \<and>
              testSetStatus s' = TestSetStatusUserAbort \<and>
                world s' = w4 \<and> inserted s' = inserted s1 \<and> success s' = success s1 \<and>
                failure s' = failure s1"
  using assms by (simp add: loopBody_def Let_def)

lemma loopBody_nil:
  assumes "pollExitLoop (runtime r) (world s1) = (sig, w0)"
    and "GetFilteredMocks (mockDB r) testSetId (Timestamp (HttpReq testCase))
             (RespTimestamp (HttpResp testCase)) w0 = (Inr fm, w1)"
    and "GetUnFilteredMocks (mockDB r) testSetId (Timestamp (HttpReq testCase))
             (RespTimestamp (HttpResp testCase)) w1 = (Inr um, w2)"
    and "SetMocks (instrumentation r) appId fm um w2 = (None, w3)"
    and "SimulateRequest r appId testCase testSetId w3 = (((resp, None), tc'), w4)"
    and "compareResp r tc' resp testSetId = (testPass, None)"
  shows "\<exists>s'. loopBody r testSetId testRunId appId testCase s1 = (BreakNilResult, s') \<and>
              testSetStatus s' = TestSetStatusInternalErr"
  using assms by (simp add: loopBody_def Let_def)

lemma loopBody_insert:
  assumes "pollExitLoop (runtime r) (world s1) = (sig, w0)"
    and "GetFilteredMocks (mockDB r) testSetId (Timestamp (HttpReq testCase))
             (RespTimestamp (HttpResp testCase)) w0 = (Inr fm, w1)"
    and "GetUnFilteredMocks (mockDB r) testSetId (Timestamp (HttpReq testCase))
             (RespTimestamp (HttpResp testCase)) w1 = (Inr um, w2)"
    and "SetMocks (instrumentation r) appId fm um w2 = (None, w3)"
    and "SimulateRequest r appId testCase testSetId w3 = (((resp, None), tc'), w4)"
    and "compareResp r tc' resp testSetId = (testPass, Some res)"
    and "InsertTestCaseResult (reportDB r) testRunId testSetId (Name tc')
             (newTestResult r testSetId tc' (if testPass then TestStatusPassed else TestStatusFailed)
                (Unix (Now (runtime r) w3)) (Unix (Now (runtime r) w4)) res) w4 = (Some err, w5)"
  shows "\<exists>s'. loopBody r testSetId testRunId appId testCase s1 = (BreakInsertTestCaseResult, s') \<and>
              testSetStatus s' = TestSetStatusInternalErr"
  using assms by (simp add: loopBody_def Let_def)

lemma loopBody_end:
  assumes "pollExitLoop (runtime r) (world s1) = (sig, w0)"
    and "GetFilteredMocks (mockDB r) testSetId (Timestamp (HttpReq testCase))
             (RespTimestamp (HttpResp testCase)) w0 = (Inr fm, w1)"
    and "GetUnFilteredMocks (mockDB r) testSetId (Timestamp (HttpReq testCase))
             (RespTimestamp (HttpResp testCase)) w1 = (Inr um, w2)"
    and "SetMocks (instrumentation r) appId fm um w2 = (None, w3)"
    and "SimulateRequest r appId testCase testSetId w3 = (((resp, None), tc'), w4)"
    and "compareResp r tc' resp testSetId = (testPass, Some res)"
    and "InsertTestCaseResult (reportDB r) testRunId testSetId (Name tc')
             (newTestResult r testSetId tc' (if testPass then TestStatusPassed else TestStatusFailed)
                (Unix (Now (runtime r) w3)) (Unix (Now (runtime r) w4)) res) w4 = (None, w5)"
  shows "\<exists>s2. loopBody r testSetId testRunId appId testCase s1 = (Continue testPass, s2) \<and>
              testSetStatus s2 =
                (if testPass then statusAfterSelect sig (testSetStatus s1)
                 else TestSetStatusFailed) \<and>
              world s2 = w5 \<and>
              inserted s2 = inserted s1 @
                [(Name tc', (newTestResult r testSetId tc' (if testPass then TestStatusPassed else TestStatusFailed)
                   (Unix (Now (runtime r) w3)) (Unix (Now (runtime r) w4)) res))]"
  using assms by (simp add: loopBody_def Let_def statusAfterSelect_def)

text \<open>
  C4. Let the test loop arrive at a test case, that is, let every iteration before it have
  reached the end of the loop body, and let the logger be non-nil. What the loop does at
  that test case is decided by the calls of the iteration, in the order of the code. If
  \<open>GetFilteredMocks\<close>, \<open>GetUnFilteredMocks\<close> or \<open>SetMocks\<close> fails, the loop stops at this test
  case with the status \<open>internalErr\<close>. If \<open>SimulateRequest\<close> returns an error, the loop stops
  with the status \<open>userAbort\<close>. If \<open>compareResp\<close> returns a nil result, or
  \<open>InsertTestCaseResult\<close> fails, the loop stops with the status \<open>internalErr\<close>. In the one
  remaining case, where the result of the comparison is non-nil and persisted, the loop
  goes on to the next test case; the status is then \<open>failed\<close> when the comparison did not
  pass, and what the \<open>select\<close> at the head of the iteration left when it passed.
\<close>

theorem testLoop_breaks:
  assumes "arrives r testSetId testRunId appId pre s = Some s1"
    and "pollExitLoop (runtime r) (world s1) = (sig, w0)"
    and "zapLogger r \<noteq> None"
  shows
    "(\<forall>err w1.
        GetFilteredMocks (mockDB r) testSetId (Timestamp (HttpReq testCase))
             (RespTimestamp (HttpResp testCase)) w0 = (Inl err, w1) \<longrightarrow>
        loopStops r testSetId testRunId appId pre testCase rest s
              BreakGetFilteredMocks TestSetStatusInternalErr) \<and>
     (\<forall>fm w1.
        GetFilteredMocks (mockDB r) testSetId (Timestamp (HttpReq testCase))
             (RespTimestamp (HttpResp testCase)) w0 = (Inr fm, w1) \<longrightarrow>
        (\<forall>err w2.
           GetUnFilteredMocks (mockDB r) testSetId (Timestamp (HttpReq testCase))
             (RespTimestamp (HttpResp testCase)) w1 = (Inl err, w2) \<longrightarrow>
           loopStops r testSetId testRunId appId pre testCase rest s
              BreakGetUnFilteredMocks TestSetStatusInternalErr) \<and>
        (\<forall>um w2.
           GetUnFilteredMocks (mockDB r) testSetId (Timestamp (HttpReq testCase))
             (RespTimestamp (HttpResp testCase)) w1 = (Inr um, w2) \<longrightarrow>
           (\<forall>err w3.
              SetMocks (instrumentation r) appId fm um w2 = (Some err, w3) \<longrightarrow>
              loopStops r testSetId testRunId appId pre testCase rest s
              BreakSetMocks TestSetStatusInternalErr) \<and>
           (\<forall>w3.
              SetMocks (instrumentation r) appId fm um w2 = (None, w3) \<longrightarrow>
              (\<forall>resp err tc' w4.
                 SimulateRequest r appId testCase testSetId w3 = (((resp, Some err), tc'), w4) \<longrightarrow>
                 loopStops r testSetId testRunId appId pre testCase rest s
              BreakSimulateRequest TestSetStatusUserAbort) \<and>
              (\<forall>resp tc' w4.
                 SimulateRequest r appId testCase testSetId w3 = (((resp, None), tc'), w4) \<longrightarrow>
                 (\<forall>testPass.
                    compareResp r tc' resp testSetId = (testPass, None) \<longrightarrow>
                    loopStops r testSetId testRunId appId pre testCase rest s
              BreakNilResult TestSetStatusInternalErr) \<and>
                 (\<forall>testPass res.
                    compareResp r tc' resp testSetId = (testPass, Some res) \<longrightarrow>
                    (\<forall>err w5.
                       InsertTestCaseResult (reportDB r) testRunId testSetId (Name tc')
             (newTestResult r testSetId tc' (if testPass then TestStatusPassed else TestStatusFailed)
                (Unix (Now (runtime r) w3)) (Unix (Now (runtime r) w4)) res) w4 = (Some err, w5) \<longrightarrow>
                       loopStops r testSetId testRunId appId pre testCase rest s
              BreakInsertTestCaseResult TestSetStatusInternalErr) \<and>
                    (\<forall>w5.
                       InsertTestCaseResult (reportDB r) testRunId testSetId (Name tc')
             (newTestResult r testSetId tc' (if testPass then TestStatusPassed else TestStatusFailed)
                (Unix (Now (runtime r) w3)) (Unix (Now (runtime r) w4)) res) w4 = (None, w5) \<longrightarrow>
                       loopGoesOn r testSetId testRunId appId pre testCase rest s testPass
                         (if testPass then statusAfterSelect sig (testSetStatus s1)
                          else TestSetStatusFailed)
                         (Name tc', (newTestResult r testSetId tc' (if testPass then TestStatusPassed else TestStatusFailed)
                (Unix (Now (runtime r) w3)) (Unix (Now (runtime r) w4)) res))
                         w5))))))"
proof (intro conjI allI impI)
  fix err w1
  assume "GetFilteredMocks (mockDB r) testSetId (Timestamp (HttpReq testCase))
             (RespTimestamp (HttpResp testCase)) w0 = (Inl err, w1)"
  from loopBody_filtered[OF assms(2) this]
  show "loopStops r testSetId testRunId appId pre testCase rest s
              BreakGetFilteredMocks TestSetStatusInternalErr"
    using loopStopsI[OF assms(1)] by fastforce
next
  fix fm w1 err w2
  assume "GetFilteredMocks (mockDB r) testSetId (Timestamp (HttpReq testCase))
             (RespTimestamp (HttpResp testCase)) w0 = (Inr fm, w1)"
    "GetUnFilteredMocks (mockDB r) testSetId (Timestamp (HttpReq testCase))
             (RespTimestamp (HttpResp testCase)) w1 = (Inl err, w2)"
  from loopBody_unfiltered[OF assms(2) this]
  show "loopStops r testSetId testRunId appId pre testCase rest s
              BreakGetUnFilteredMocks TestSetStatusInternalErr"
    using loopStopsI[OF assms(1)] by fastforce
next
  fix fm w1 um w2 err w3
  assume "GetFilteredMocks (mockDB r) testSetId (Timestamp (HttpReq testCase))
             (RespTimestamp (HttpResp testCase)) w0 = (Inr fm, w1)"
    "GetUnFilteredMocks (mockDB r) testSetId (Timestamp (HttpReq testCase))
             (RespTimestamp (HttpResp testCase)) w1 = (Inr um, w2)"
    "SetMocks (instrumentation r) appId fm um w2 = (Some err, w3)"
  from loopBody_setmocks[OF assms(2) this]
  show "loopStops r testSetId testRunId appId pre testCase rest s
              BreakSetMocks TestSetStatusInternalErr"
    using loopStopsI[OF assms(1)] by fastforce
next
  fix fm w1 um w2 w3 resp err tc' w4
  assume "GetFilteredMocks (mockDB r) testSetId (Timestamp (HttpReq testCase))
             (RespTimestamp (HttpResp testCase)) w0 = (Inr fm, w1)"
    "GetUnFilteredMocks (mockDB r) testSetId (Timestamp (HttpReq testCase))
             (RespTimestamp (HttpResp testCase)) w1 = (Inr um, w2)"
    "SetMocks (instrumentation r) appId fm um w2 = (None, w3)"
    "SimulateRequest r appId testCase testSetId w3 = (((resp, Some err), tc'), w4)"
  from loopBody_simulate[OF assms(2) this]
  show "loopStops r testSetId testRunId appId pre testCase rest s
              BreakSimulateRequest TestSetStatusUserAbort"
    using loopStopsI[OF assms(1)] by fastforce
next
  fix fm w1 um w2 w3 resp tc' w4 testPass
  assume "GetFilteredMocks (mockDB r) testSetId (Timestamp (HttpReq testCase))
             (RespTimestamp (HttpResp testCase)) w0 = (Inr fm, w1)"
    "GetUnFilteredMocks (mockDB r) testSetId (Timestamp (HttpReq testCase))
             (RespTimestamp (HttpResp testCase)) w1 = (Inr um, w2)"
    "SetMocks (instrumentation r) appId fm um w2 = (None, w3)"
    "SimulateRequest r appId testCase testSetId w3 = (((resp, None), tc'), w4)"
    "compareResp r tc' resp testSetId = (testPass, None)"
  from loopBody_nil[OF assms(2) this]
  show "loopStops r testSetId testRunId appId pre testCase rest s
              BreakNilResult TestSetStatusInternalErr"
    using loopStopsI[OF assms(1)] by fastforce
next
  fix fm w1 um w2 w3 resp tc' w4 testPass res err w5
  assume "GetFilteredMocks (mockDB r) testSetId (Timestamp (HttpReq testCase))
             (RespTimestamp (HttpResp testCase)) w0 = (Inr fm, w1)"
    "GetUnFilteredMocks (mockDB r) testSetId (Timestamp (HttpReq testCase))
             (RespTimestamp (HttpResp testCase)) w1 = (Inr um, w2)"
    "SetMocks (instrumentation r) appId fm um w2 = (None, w3)"
    "SimulateRequest r appId testCase testSetId w3 = (((resp, None), tc'), w4)"
    "compareResp r tc' resp testSetId = (testPass, Some res)"
    "InsertTestCaseResult (reportDB r) testRunId testSetId (Name tc')
             (newTestResult r testSetId tc' (if testPass then TestStatusPassed else TestStatusFailed)
                (Unix (Now (runtime r) w3)) (Unix (Now (runtime r) w4)) res) w4 = (Some err, w5)"
  from loopBody_insert[OF assms(2) this]
  show "loopStops r testSetId testRunId appId pre testCase rest s
              BreakInsertTestCaseResult TestSetStatusInternalErr"
    using loopStopsI[OF assms(1)] by fastforce
next
  fix fm w1 um w2 w3 resp tc' w4 testPass res w5
  assume "GetFilteredMocks (mockDB r) testSetId (Timestamp (HttpReq testCase))
             (RespTimestamp (HttpResp testCase)) w0 = (Inr fm, w1)"
    "GetUnFilteredMocks (mockDB r) testSetId (Timestamp (HttpReq testCase))
             (RespTimestamp (HttpResp testCase)) w1 = (Inr um, w2)"
    "SetMocks (instrumentation r) appId fm um w2 = (None, w3)"
    "SimulateRequest r appId testCase testSetId w3 = (((resp, None), tc'), w4)"
    "compareResp r tc' resp testSetId = (testPass, Some res)"
    "InsertTestCaseResult (reportDB r) testRunId testSetId (Name tc')
             (newTestResult r testSetId tc' (if testPass then TestStatusPassed else TestStatusFailed)
                (Unix (Now (runtime r) w3)) (Unix (Now (runtime r) w4)) res) w4 = (None, w5)"
  from loopBody_end[OF assms(2) this]
  obtain s2 where s2: "loopBody r testSetId testRunId appId testCase s1 = (Continue testPass, s2)"
    "testSetStatus s2 =
       (if testPass then statusAfterSelect sig (testSetStatus s1) else TestSetStatusFailed)"
    "world s2 = w5"
    "inserted s2 = inserted s1 @
       [(Name tc', (newTestResult r testSetId tc' (if testPass then TestStatusPassed else TestStatusFailed)
                (Unix (Now (runtime r) w3)) (Unix (Now (runtime r) w4)) res))]"
    by blast
  have "snd (testLoop r testSetId testRunId appId pre s) = s1"
    using testLoop_append[OF assms(1), of "[]"] by simp
  then show "loopGoesOn r testSetId testRunId appId pre testCase rest s testPass
                         (if testPass then statusAfterSelect sig (testSetStatus s1)
                          else TestSetStatusFailed)
                         (Name tc', (newTestResult r testSetId tc' (if testPass then TestStatusPassed else TestStatusFailed)
                (Unix (Now (runtime r) w3)) (Unix (Now (runtime r) w4)) res))
                         w5"
    using loopGoesOnI[OF assms(1) s2(1) s2(2) s2(3) s2(4)] by simp
qed

text \<open>
  In the example, the application answers \<open>tc-changed\<close> with another body: the comparison
  does not pass, its result is persisted, the status is \<open>failed\<close> and the loop goes on to
  \<open>tc-ok\<close>.
\<close>

theorem testLoop_breaks_witness:
  "arrives exampleReplayer ''test-set-0'' ''test-run-0'' 1 [] startState = Some startState \<and>
   pollExitLoop (runtime exampleReplayer) (world startState) = (None, 0) \<and>
   SimulateRequest exampleReplayer 1 (exampleCase ''tc-changed'') ''test-set-0'' 0 =
     (((Some ((HttpResp (exampleCase ''tc-changed''))\<lparr>RespBody := ''bye''\<rparr>), None),
       exampleCase ''tc-changed''), 1) \<and>
   compareResp exampleReplayer (exampleCase ''tc-changed'')
     (Some ((HttpResp (exampleCase ''tc-changed''))\<lparr>RespBody := ''bye''\<rparr>)) ''test-set-0'' =
     (False, Some ''diff'') \<and>
   loopGoesOn exampleReplayer ''test-set-0'' ''test-run-0'' 1 [] (exampleCase ''tc-changed'')
     [exampleCase ''tc-ok''] startState False TestSetStatusFailed
     (''tc-changed'',
      newTestResult exampleReplayer ''test-set-0'' (exampleCase ''tc-changed'') TestStatusFailed
        (Unix time200) (Unix time200) ''diff'') 1 \<and>
   fst (testLoop exampleReplayer ''test-set-0'' ''test-run-0'' 1
          [exampleCase ''tc-changed'', exampleCase ''tc-ok''] startState) =
     [(Continue False, TestSetStatusFailed), (Continue True, TestSetStatusFailed)]"
proof -
  have arr: "arrives exampleReplayer ''test-set-0'' ''test-run-0'' 1 [] startState = Some startState"
    by (simp add: arrives_def)
  have poll: "pollExitLoop (runtime exampleReplayer) (world startState) = (None, 0)"
    by (simp add: exampleReplayer_def startState_def)
  have lg: "zapLogger exampleReplayer \<noteq> None"
    by (simp add: exampleReplayer_def)
  have fm: "GetFilteredMocks (mockDB exampleReplayer) ''test-set-0''
              (Timestamp (HttpReq (exampleCase ''tc-changed'')))
              (RespTimestamp (HttpResp (exampleCase ''tc-changed''))) 0 = (Inr [], 0)"
    by (simp add: exampleReplayer_def)
  have um: "GetUnFilteredMocks (mockDB exampleReplayer) ''test-set-0''
              (Timestamp (HttpReq (exampleCase ''tc-changed'')))
              (RespTimestamp (HttpResp (exampleCase ''tc-changed''))) 0 = (Inr [], 0)"
    by (simp add: exampleReplayer_def)
  have sm: "SetMocks (instrumentation exampleReplayer) 1 [] [] 0 = (None, 0)"
    by (simp add: exampleReplayer_def)
  have sim: "SimulateRequest exampleReplayer 1 (exampleCase ''tc-changed'') ''test-set-0'' 0 =
     (((Some ((HttpResp (exampleCase ''tc-changed''))\<lparr>RespBody := ''bye''\<rparr>), None),
       exampleCase ''tc-changed''), 1)"
    by (simp add: SimulateRequest_def exampleReplayer_def exampleCase_def)
  have cmp: "compareResp exampleReplayer (exampleCase ''tc-changed'')
     (Some ((HttpResp (exampleCase ''tc-changed''))\<lparr>RespBody := ''bye''\<rparr>)) ''test-set-0'' =
     (False, Some ''diff'')"
    by (simp add: compareResp_def exampleReplayer_def exampleCase_def)
  have now: "Now (runtime exampleReplayer) 0 = time200" "Now (runtime exampleReplayer) 1 = time200"
    by (simp_all add: exampleReplayer_def)
  have ins: "InsertTestCaseResult (reportDB exampleReplayer) ''test-run-0'' ''test-set-0''
       (Name (exampleCase ''tc-changed''))
       (newTestResult exampleReplayer ''test-set-0'' (exampleCase ''tc-changed'')
          (if False then TestStatusPassed else TestStatusFailed)
          (Unix (Now (runtime exampleReplayer) 0)) (Unix (Now (runtime exampleReplayer) 1)) ''diff'') 1
       = (None, 1)"
    by (simp add: exampleReplayer_def)
  have name: "Name (exampleCase ''tc-changed'') = ''tc-changed''"
    by (simp add: exampleCase_def)
  have goes: "loopGoesOn exampleReplayer ''test-set-0'' ''test-run-0'' 1 [] (exampleCase ''tc-changed'')
     [exampleCase ''tc-ok''] startState False TestSetStatusFailed
     (''tc-changed'',
      newTestResult exampleReplayer ''test-set-0'' (exampleCase ''tc-changed'') TestStatusFailed
        (Unix time200) (Unix time200) ''diff'') 1"
    using testLoop_breaks[OF arr poll lg, where testCase = "exampleCase ''tc-changed''"
        and rest = "[exampleCase ''tc-ok'']"] fm um sm sim cmp ins now name
    by auto
  have tr: "fst (testLoop exampleReplayer ''test-set-0'' ''test-run-0'' 1
          [exampleCase ''tc-changed'', exampleCase ''tc-ok''] startState) =
     [(Continue False, TestSetStatusFailed), (Continue True, TestSetStatusFailed)]"
    by (simp add: loopBody_def SimulateRequest_def compareResp_def exampleReplayer_def
        exampleCase_def startState_def Let_def statusAfterSelect_def)
  show ?thesis using arr poll sim cmp goes tr by simp
qed

text \<open>
  The application is down for \<open>tc-down\<close>: the loop stops there, before \<open>tc-ok\<close>, and the
  status it leaves is \<open>userAbort\<close>, not \<open>internalErr\<close>.
\<close>

theorem testLoop_breaks_counterexample:
  "fst (testLoop exampleReplayer ''test-set-0'' ''test-run-0'' 1
          [exampleCase ''tc-down'', exampleCase ''tc-ok''] startState) =
     [(BreakSimulateRequest, TestSetStatusUserAbort)] \<and>
   testSetStatus (snd (testLoop exampleReplayer ''test-set-0'' ''test-run-0'' 1
          [exampleCase ''tc-down'', exampleCase ''tc-ok''] startState)) =
     TestSetStatusUserAbort \<and>
   TestSetStatusUserAbort \<noteq> TestSetStatusInternalErr"
  by (simp add: loopBody_def SimulateRequest_def exampleReplayer_def exampleCase_def
      startState_def)

section \<open>Properties of \<open>RunTestSet\<close> when \<open>SimulateRequest\<close> fails\<close>

lemma finishTestSet_fields:
  "steps (finishTestSet r testSetId testRunId testCases trace s g) = trace \<and>
   insertedResults (finishTestSet r testSetId testRunId testCases trace s g) = inserted s \<and>
   (\<exists>rep. finalReport (finishTestSet r testSetId testRunId testCases trace s g) = Some rep \<and>
          Success rep = success s \<and> Failure rep = failure s \<and>
          Status rep = OfTestSetStatus
            (case GetTestCaseResults (reportDB r) testRunId testSetId (world s) of
               (Inl err, w1) \<Rightarrow>
                 if runTestSetCtxCanceled (runtime r) w1 then testSetStatus s
                 else TestSetStatusInternalErr
             | (Inr results, w1) \<Rightarrow> testSetStatus s))"
  unfolding finishTestSet_def Let_def
  by (auto split: prod.splits sum.splits option.splits)

lemma RunTestSet_loop:
  assumes "GetTestCases (testDB r) testSetId w = (Inr testCases, wa)" and "testCases \<noteq> []"
    and "GetFilteredMocks (mockDB r) testSetId zeroTime (Now (runtime r) wa) wa = (Inr f0, wb)"
    and "GetUnFilteredMocks (mockDB r) testSetId zeroTime (Now (runtime r) wb) wb = (Inr u0, wc)"
    and "SetMocks (instrumentation r) appId f0 u0 wc = (None, wd)"
    and "InsertReport (reportDB r) testRunId testSetId
           \<lparr>ReportVersion = GetVersion, TestSet = '''', Status = OfTestStatus TestStatusRunning,
            Total = int (length testCases), Success = 0, Failure = 0, Tests = []\<rparr>
           (MockOutgoing (instrumentation r) appId wd) = (None, we)"
  shows "RunTestSet r testSetId testRunId appId serveTest w g =
           finishTestSet r testSetId testRunId testCases
             (fst (testLoop r testSetId testRunId appId testCases
                     \<lparr>testSetStatus = TestSetStatusPassed, success = 0, failure = 0,
                      inserted = [], world = we\<rparr>))
             (snd (testLoop r testSetId testRunId appId testCases
                     \<lparr>testSetStatus = TestSetStatusPassed, success = 0, failure = 0,
                      inserted = [], world = we\<rparr>)) g"
  using assms by (simp add: RunTestSet_def Let_def split: prod.splits)

text \<open>
  C10. Let \<open>RunTestSet\<close> get past the calls it makes before the test loop, let the logger
  be non-nil, and let the loop arrive at a test case, at any position of the list, for
  which the calls before \<open>SimulateRequest\<close> succeed and \<open>SimulateRequest\<close> returns an error.
  Then the loop stops at that test case: the iterations \<open>RunTestSet\<close> ran are those on the
  test cases before it and one more, which ends at the \<open>break\<close> after \<open>SimulateRequest\<close>
  with the status \<open>userAbort\<close>. No \<open>TestResult\<close> is persisted for it: the calls of
  \<open>InsertTestCaseResult\<close> are those made before the loop arrived there. The final report
  carries the counters as they were on arrival and the status \<open>userAbort\<close>, unless fetching
  the test-case results fails while the context of the test set is not cancelled: then it
  carries \<open>internalErr\<close>.
\<close>

theorem RunTestSet_simulate_error:
  assumes "GetTestCases (testDB r) testSetId w = (Inr (pre @ testCase # rest), wa)"
    and "GetFilteredMocks (mockDB r) testSetId zeroTime (Now (runtime r) wa) wa = (Inr f0, wb)"
    and "GetUnFilteredMocks (mockDB r) testSetId zeroTime (Now (runtime r) wb) wb = (Inr u0, wc)"
    and "SetMocks (instrumentation r) appId f0 u0 wc = (None, wd)"
    and "InsertReport (reportDB r) testRunId testSetId
           \<lparr>ReportVersion = GetVersion, TestSet = '''', Status = OfTestStatus TestStatusRunning,
            Total = int (length (pre @ testCase # rest)), Success = 0, Failure = 0, Tests = []\<rparr>
           (MockOutgoing (instrumentation r) appId wd) = (None, we)"
    and "arrives r testSetId testRunId appId pre
           \<lparr>testSetStatus = TestSetStatusPassed, success = 0, failure = 0, inserted = [],
            world = we\<rparr> = Some s1"
    and "pollExitLoop (runtime r) (world s1) = (sig, w0)"
    and "GetFilteredMocks (mockDB r) testSetId (Timestamp (HttpReq testCase))
           (RespTimestamp (HttpResp testCase)) w0 = (Inr fm, w1)"
    and "GetUnFilteredMocks (mockDB r) testSetId (Timestamp (HttpReq testCase))
           (RespTimestamp (HttpResp testCase)) w1 = (Inr um, w2)"
    and "SetMocks (instrumentation r) appId fm um w2 = (None, w3)"
    and "SimulateRequest r appId testCase testSetId w3 = (((resp, Some err), tc'), w4)"
    and "zapLogger r \<noteq> None"
  shows "steps (RunTestSet r testSetId testRunId appId serveTest w g) =
           fst (testLoop r testSetId testRunId appId pre
                  \<lparr>testSetStatus = TestSetStatusPassed, success = 0, failure = 0, inserted = [],
                   world = we\<rparr>) @ [(BreakSimulateRequest, TestSetStatusUserAbort)] \<and>
         length (steps (RunTestSet r testSetId testRunId appId serveTest w g)) = length pre + 1 \<and>
         insertedResults (RunTestSet r testSetId testRunId appId serveTest w g) = inserted s1 \<and>
         (\<exists>rep. finalReport (RunTestSet r testSetId testRunId appId serveTest w g) = Some rep \<and>
                Success rep = success s1 \<and> Failure rep = failure s1 \<and>
                Status rep = OfTestSetStatus
                  (case GetTestCaseResults (reportDB r) testRunId testSetId w4 of
                     (Inl fetchErr, w5) \<Rightarrow>
                       if runTestSetCtxCanceled (runtime r) w5 then TestSetStatusUserAbort
                       else TestSetStatusInternalErr
                   | (Inr results, w5) \<Rightarrow> TestSetStatusUserAbort))"
proof -
  let ?init = "\<lparr>testSetStatus = TestSetStatusPassed, success = 0, failure = 0, inserted = [],
                world = we\<rparr> :: ('a, 'b) loopState"
  let ?all = "pre @ testCase # rest"
  obtain s' where body: "loopBody r testSetId testRunId appId testCase s1 = (BreakSimulateRequest, s')"
    and s': "testSetStatus s' = TestSetStatusUserAbort" "world s' = w4" "inserted s' = inserted s1"
      "success s' = success s1" "failure s' = failure s1"
    using loopBody_simulate[OF assms(7-11)] by blast
  note app = testLoop_append[OF assms(6), of "testCase # rest"]
  have brk: "testLoop r testSetId testRunId appId (testCase # rest) s1 =
      ([(BreakSimulateRequest, testSetStatus s')], s')"
    using testLoop_break[OF body, of rest] by simp
  have loop: "testLoop r testSetId testRunId appId ?all ?init =
      (fst (testLoop r testSetId testRunId appId pre ?init) @
         [(BreakSimulateRequest, TestSetStatusUserAbort)], s')"
    using app brk s'(1) by simp
  have run: "RunTestSet r testSetId testRunId appId serveTest w g =
      finishTestSet r testSetId testRunId ?all
        (fst (testLoop r testSetId testRunId appId pre ?init) @
           [(BreakSimulateRequest, TestSetStatusUserAbort)]) s' g"
    using RunTestSet_loop[OF assms(1) _ assms(2-5), of serveTest g] loop by simp
  have len: "length (fst (testLoop r testSetId testRunId appId pre ?init)) = length pre"
    using app by simp
  show ?thesis
    unfolding run
    using finishTestSet_fields[of r testSetId testRunId ?all
        "fst (testLoop r testSetId testRunId appId pre ?init) @
           [(BreakSimulateRequest, TestSetStatusUserAbort)]" s' g] s' len
    by (auto split: prod.splits sum.splits)
qed

text \<open>
  In the example, the second test case of \<open>test-set-2\<close> is \<open>tc-down\<close>: the loop ran on
  \<open>tc-changed\<close> and stopped at \<open>tc-down\<close>, the only result persisted is that of
  \<open>tc-changed\<close>, and the final report carries \<open>userAbort\<close>.
\<close>

theorem RunTestSet_simulate_error_witness:
  "arrives exampleReplayer ''test-set-2'' ''test-run-0'' 1 [exampleCase ''tc-changed'']
     \<lparr>testSetStatus = TestSetStatusPassed, success = 0, failure = 0, inserted = [],
      world = 0\<rparr> = Some afterChanged \<and>
   SimulateRequest exampleReplayer 1 (exampleCase ''tc-down'') ''test-set-2'' 1 =
     (((None, Some (Error ''connection refused'')), exampleCase ''tc-down''), 1) \<and>
   steps (RunTestSet exampleReplayer ''test-set-2'' ''test-run-0'' 1 False 0 noGlobals) =
     [(Continue False, TestSetStatusFailed), (BreakSimulateRequest, TestSetStatusUserAbort)] \<and>
   insertedResults (RunTestSet exampleReplayer ''test-set-2'' ''test-run-0'' 1 False 0 noGlobals) =
     inserted afterChanged \<and>
   map fst (insertedResults
     (RunTestSet exampleReplayer ''test-set-2'' ''test-run-0'' 1 False 0 noGlobals)) =
     [''tc-changed''] \<and>
   map_option Status
     (finalReport (RunTestSet exampleReplayer ''test-set-2'' ''test-run-0'' 1 False 0 noGlobals)) =
     Some (OfTestSetStatus TestSetStatusUserAbort)"
proof -
  let ?init = "\<lparr>testSetStatus = TestSetStatusPassed, success = 0, failure = 0, inserted = [],
      world = 0\<rparr> :: (nat, string) loopState"
  have loop1: "testLoop exampleReplayer ''test-set-2'' ''test-run-0'' 1 [exampleCase ''tc-changed'']
      ?init = ([(Continue False, TestSetStatusFailed)], afterChanged)"
    by (simp add: loopBody_def SimulateRequest_def compareResp_def exampleReplayer_def
        exampleCase_def afterChanged_def Let_def newTestResult_def)
  have arr: "arrives exampleReplayer ''test-set-2'' ''test-run-0'' 1 [exampleCase ''tc-changed'']
      ?init = Some afterChanged"
    unfolding arrives_def loop1 by simp
  have cases: "GetTestCases (testDB exampleReplayer) ''test-set-2'' 0 =
      (Inr ([exampleCase ''tc-changed''] @ exampleCase ''tc-down'' # [exampleCase ''tc-ok'']), 0)"
    by (simp add: exampleReplayer_def)
  have f0: "GetFilteredMocks (mockDB exampleReplayer) ''test-set-2'' zeroTime
      (Now (runtime exampleReplayer) 0) 0 = (Inr [], 0)"
    by (simp add: exampleReplayer_def)
  have u0: "GetUnFilteredMocks (mockDB exampleReplayer) ''test-set-2'' zeroTime
      (Now (runtime exampleReplayer) 0) 0 = (Inr [], 0)"
    by (simp add: exampleReplayer_def)
  have sm0: "SetMocks (instrumentation exampleReplayer) 1 [] [] 0 = (None, 0)"
    by (simp add: exampleReplayer_def)
  have rep: "InsertReport (reportDB exampleReplayer) ''test-run-0'' ''test-set-2''
           \<lparr>ReportVersion = GetVersion, TestSet = '''', Status = OfTestStatus TestStatusRunning,
            Total = int (length ([exampleCase ''tc-changed''] @ exampleCase ''tc-down'' #
                                 [exampleCase ''tc-ok''])),
            Success = 0, Failure = 0, Tests = []\<rparr>
           (MockOutgoing (instrumentation exampleReplayer) 1 0) = (None, 0)"
    by (simp add: exampleReplayer_def)
  have poll: "pollExitLoop (runtime exampleReplayer) (world afterChanged) = (None, 1)"
    by (simp add: exampleReplayer_def afterChanged_def)
  have fm: "GetFilteredMocks (mockDB exampleReplayer) ''test-set-2''
              (Timestamp (HttpReq (exampleCase ''tc-down'')))
              (RespTimestamp (HttpResp (exampleCase ''tc-down''))) 1 = (Inr [], 1)"
    by (simp add: exampleReplayer_def)
  have um: "GetUnFilteredMocks (mockDB exampleReplayer) ''test-set-2''
              (Timestamp (HttpReq (exampleCase ''tc-down'')))
              (RespTimestamp (HttpResp (exampleCase ''tc-down''))) 1 = (Inr [], 1)"
    by (simp add: exampleReplayer_def)
  have sm: "SetMocks (instrumentation exampleReplayer) 1 [] [] 1 = (None, 1)"
    by (simp add: exampleReplayer_def)
  have sim: "SimulateRequest exampleReplayer 1 (exampleCase ''tc-down'') ''test-set-2'' 1 =
     (((None, Some (Error ''connection refused'')), exampleCase ''tc-down''), 1)"
    by (simp add: SimulateRequest_def exampleReplayer_def exampleCase_def)
  have lg: "zapLogger exampleReplayer \<noteq> None"
    by (simp add: exampleReplayer_def)
  have res: "GetTestCaseResults (reportDB exampleReplayer) ''test-run-0'' ''test-set-2'' 1 =
     (Inr [], 1)"
    by (simp add: exampleReplayer_def)
  note main = RunTestSet_simulate_error[OF cases f0 u0 sm0 rep arr poll fm um sm sim lg,
      of False noGlobals]
  have steps: "steps (RunTestSet exampleReplayer ''test-set-2'' ''test-run-0'' 1 False 0 noGlobals) =
     [(Continue False, TestSetStatusFailed), (BreakSimulateRequest, TestSetStatusUserAbort)]"
    using main loop1 by simp
  have ins: "insertedResults
      (RunTestSet exampleReplayer ''test-set-2'' ''test-run-0'' 1 False 0 noGlobals) =
     inserted afterChanged"
    using main by simp
  have st: "map_option Status
     (finalReport (RunTestSet exampleReplayer ''test-set-2'' ''test-run-0'' 1 False 0 noGlobals)) =
     Some (OfTestSetStatus TestSetStatusUserAbort)"
    using main res by auto
  show ?thesis using arr sim steps ins st by (simp add: afterChanged_def)
qed

text \<open>
  The results of \<open>test-set-1\<close> cannot be fetched and its context is not cancelled: the
  loop stops at \<open>tc-down\<close> with \<open>userAbort\<close>, and the final report carries \<open>internalErr\<close>.
\<close>

theorem RunTestSet_simulate_error_counterexample:
  "fst (SimulateRequest exampleReplayer 1 (exampleCase ''tc-down'') ''test-set-1'' 0) =
     ((None, Some (Error ''connection refused'')), exampleCase ''tc-down'') \<and>
   steps (RunTestSet exampleReplayer ''test-set-1'' ''test-run-0'' 1 False 0 noGlobals) =
     [(BreakSimulateRequest, TestSetStatusUserAbort)] \<and>
   map_option Status
     (finalReport (RunTestSet exampleReplayer ''test-set-1'' ''test-run-0'' 1 False 0 noGlobals)) =
     Some (OfTestSetStatus TestSetStatusInternalErr)"
  by (simp add: RunTestSet_def finishTestSet_def loopBody_def SimulateRequest_def
      exampleReplayer_def exampleCase_def)

section \<open>Properties of \<open>Start\<close>\<close>






end
